theory Spec2Isabelle
  imports Main "HOL-Library.Word"
begin

unbundle bit_operations_syntax

section \<open>The custom UDP latency probe: client and server\<close>

text \<open>
  This theory embeds \<^verbatim>\<open>custom_udp_client.c\<close> and \<^verbatim>\<open>custom_udp_server.c\<close>. Both programs
  overlay the struct \<^verbatim>\<open>stgen_hdr_t\<close> on a raw byte buffer, so memory is modelled as a list of
  bytes and the struct's fields are read and written through their object representation.
  Everything a program does to the outside world (standard error, system calls, the log
  file) is recorded, in order, in a list of effects; everything the outside world decides
  (what \<^verbatim>\<open>now_us\<close> returns, what \<^verbatim>\<open>recvfrom\<close> delivers, when a signal arrives, whether
  \<^verbatim>\<open>bind\<close> and \<^verbatim>\<open>fopen\<close> succeed) is an input.
\<close>

subsection \<open>Bytes, words and memory\<close>

type_synonym byte = "8 word"

text \<open>The bytes of a word, least significant first, and the word of such bytes.\<close>

fun le_bytes :: "nat \<Rightarrow> 'a::len word \<Rightarrow> byte list" where
  "le_bytes 0 w = []"
| "le_bytes (Suc n) w = ucast w # le_bytes n (drop_bit 8 w)"

fun le_word :: "byte list \<Rightarrow> 'a::len word" where
  "le_word [] = 0"
| "le_word (b # bs) = ucast b OR push_bit 8 (le_word bs)"

text \<open>
  Modelled from the spec: \<^verbatim>\<open>stgen_compat.h\<close>, which declares \<^verbatim>\<open>stgen_hdr_t\<close> and \<^verbatim>\<open>now_us\<close>, is
  not among the sources. What \<^verbatim>\<open>now_us\<close> returns is an input of each pass of a loop. The spec gives the struct as \<open>{sequence: uint32, send_time_us: uint64}\<close>, fields in
  this order. What the C compiler adds (the byte order of the host, the offset of the second
  field and \<^verbatim>\<open>sizeof(stgen_hdr_t)\<close>, which differ between a packed and a naturally aligned
  struct) is a parameter of the model. The first field of a C struct is at offset 0.
\<close>

record abi =
  big_endian :: bool
  time_off :: nat
  hdr_size :: nat

text \<open>\<^verbatim>\<open>sizeof(buffer)\<close> for the server's \<^verbatim>\<open>uint8_t buffer[1024]\<close>.\<close>

definition buffer_size :: nat where
  "buffer_size = 1024"

definition abi_ok :: "abi \<Rightarrow> bool" where
  "abi_ok a \<longleftrightarrow>
     4 \<le> time_off a \<and> time_off a + 8 \<le> hdr_size a \<and> hdr_size a \<le> buffer_size"

definition packed_le :: abi where
  "packed_le = \<lparr>big_endian = False, time_off = 4, hdr_size = 12\<rparr>"

definition aligned_le :: abi where
  "aligned_le = \<lparr>big_endian = False, time_off = 8, hdr_size = 16\<rparr>"

definition packed_be :: abi where
  "packed_be = \<lparr>big_endian = True, time_off = 4, hdr_size = 12\<rparr>"

text \<open>The object representation of an integer of \<open>n\<close> bytes on the host, and its value.\<close>

definition word_bytes :: "abi \<Rightarrow> nat \<Rightarrow> 'a::len word \<Rightarrow> byte list" where
  "word_bytes a n w = (if big_endian a then rev (le_bytes n w) else le_bytes n w)"

definition bytes_word :: "abi \<Rightarrow> byte list \<Rightarrow> 'a::len word" where
  "bytes_word a bs = le_word (if big_endian a then rev bs else bs)"

text \<open>The order in which \<^verbatim>\<open>htonl\<close> and its 64-bit analogue would place the bytes.\<close>

definition network_bytes :: "nat \<Rightarrow> 'a::len word \<Rightarrow> byte list" where
  "network_bytes n w = rev (le_bytes n w)"

text \<open>
  A block of memory is the list of its bytes. \<open>store\<close> writes bytes at an offset (a write
  past the end of the block, undefined in C, is dropped); \<open>load\<close> reads \<open>n\<close> bytes.
\<close>

definition store :: "nat \<Rightarrow> byte list \<Rightarrow> byte list \<Rightarrow> byte list" where
  "store off bs mem =
     map (\<lambda>i. if off \<le> i \<and> i < off + length bs then bs ! (i - off) else mem ! i)
       [0..<length mem]"

definition load :: "nat \<Rightarrow> nat \<Rightarrow> byte list \<Rightarrow> byte list" where
  "load off n mem = take n (drop off mem)"

text \<open>\<^verbatim>\<open>hdr->seq\<close> and \<^verbatim>\<open>hdr->send_time_us\<close>, with \<^verbatim>\<open>hdr\<close> pointing at the start of the block.\<close>

definition get_seq :: "abi \<Rightarrow> byte list \<Rightarrow> 32 word" where
  "get_seq a mem = bytes_word a (load 0 4 mem)"

definition set_seq :: "abi \<Rightarrow> 32 word \<Rightarrow> byte list \<Rightarrow> byte list" where
  "set_seq a v mem = store 0 (word_bytes a 4 v) mem"

definition get_send_time_us :: "abi \<Rightarrow> byte list \<Rightarrow> 64 word" where
  "get_send_time_us a mem = bytes_word a (load (time_off a) 8 mem)"

definition set_send_time_us :: "abi \<Rightarrow> 64 word \<Rightarrow> byte list \<Rightarrow> byte list" where
  "set_send_time_us a v mem = store (time_off a) (word_bytes a 8 v) mem"

text \<open>
  A fresh block (\<^verbatim>\<open>malloc\<close>, or an uninitialised array on the stack) holds indeterminate
  bytes: whatever the function \<open>junk\<close> says.
\<close>

definition fresh_block :: "nat \<Rightarrow> (nat \<Rightarrow> byte) \<Rightarrow> byte list" where
  "fresh_block n junk = map junk [0..<n]"

definition zero_junk :: "nat \<Rightarrow> byte" where
  "zero_junk i = 0"

subsection \<open>Effects\<close>

datatype effect =
    Stderr string
  | Socket
  | Bind
  | Fopen
  | Sendto "byte list"
  | Usleep nat
  | LogWrite string
  | Free
  | Fclose
  | Close

text \<open>What \<^verbatim>\<open>main\<close> did, and the status it returned (\<open>None\<close>: it has not returned).\<close>

record outcome =
  exit_status :: "int option"
  effects :: "effect list"

text \<open>The state of a \<^verbatim>\<open>while(run)\<close> loop when the inputs end: left, or still inside.\<close>

datatype 'a loop_end = Exited 'a | Pending 'a

fun sent :: "effect list \<Rightarrow> byte list list" where
  "sent [] = []"
| "sent (Sendto d # es) = d # sent es"
| "sent (e # es) = sent es"

fun log_of :: "effect list \<Rightarrow> string" where
  "log_of [] = []"
| "log_of (LogWrite s # es) = s @ log_of es"
| "log_of (e # es) = log_of es"

fun stderr_of :: "effect list \<Rightarrow> string" where
  "stderr_of [] = []"
| "stderr_of (Stderr s # es) = s @ stderr_of es"
| "stderr_of (e # es) = stderr_of es"

definition newline :: char where
  "newline = CHR 0x0A"

definition count_lines :: "string \<Rightarrow> nat" where
  "count_lines s = length (filter (\<lambda>c. c = newline) s)"

text \<open>\<^verbatim>\<open>argv[0]\<close> under \<^verbatim>\<open>%s\<close>; glibc prints a null pointer as \<^verbatim>\<open>(null)\<close>.\<close>

definition argv0 :: "string list \<Rightarrow> string" where
  "argv0 argv = (case argv of [] \<Rightarrow> ''(null)'' | a # _ \<Rightarrow> a)"

subsection \<open>Decimal output of \<^verbatim>\<open>fprintf\<close>\<close>

definition digit :: "nat \<Rightarrow> char" where
  "digit n = ''0123456789'' ! n"

fun dec :: "nat \<Rightarrow> string" where
  "dec n = (if n < 10 then [digit n] else dec (n div 10) @ [digit (n mod 10)])"

declare dec.simps [simp del]

definition sdec :: "int \<Rightarrow> string" where
  "sdec i = (if i < 0 then CHR ''-'' # dec (nat (- i)) else dec (nat i))"

text \<open>\<^verbatim>\<open>fprintf(fp, "%u %ld\n", seq, lat)\<close> with a 32-bit unsigned and a 64-bit long.\<close>

definition log_line :: "32 word \<Rightarrow> 64 word \<Rightarrow> string" where
  "log_line s lat = dec (unat s) @ '' '' @ sdec (sint lat) @ [newline]"

subsection \<open>The client\<close>

text \<open>One pass of the loop: the value \<^verbatim>\<open>now_us\<close> returns, and whether a signal arrives.\<close>

record client_tick =
  c_now :: "64 word"
  c_sig :: bool

record client_env =
  c_argv :: "string list"
  c_junk :: "nat \<Rightarrow> byte"
  c_early_sig :: bool
  c_ticks :: "client_tick list"

record client_state =
  c_run :: int
  c_mem :: "byte list"
  c_trace :: "effect list"

definition client_handle_sig :: "client_state \<Rightarrow> client_state" where
  "client_handle_sig st = st\<lparr>c_run := 0\<rparr>"

text \<open>
  The loop body. The handler only clears \<^verbatim>\<open>run\<close>, which the body never reads, so a signal
  at any point of the pass has the effect of one at its end.
\<close>

definition client_body :: "abi \<Rightarrow> client_tick \<Rightarrow> client_state \<Rightarrow> client_state" where
  "client_body a tk st =
     (let m1 = set_seq a (get_seq a (c_mem st) + 1) (c_mem st);
          m2 = set_send_time_us a (c_now tk) m1;
          st1 = st\<lparr>c_mem := m2,
                   c_trace := c_trace st @ [Sendto (load 0 (hdr_size a + 100) m2), Usleep 100000]\<rparr>
      in if c_sig tk then client_handle_sig st1 else st1)"

fun client_loop :: "abi \<Rightarrow> client_state \<Rightarrow> client_tick list \<Rightarrow> client_state loop_end" where
  "client_loop a st [] = (if c_run st \<noteq> 0 then Pending st else Exited st)"
| "client_loop a st (tk # rest) =
     (if c_run st \<noteq> 0 then client_loop a (client_body a tk st) rest else Exited st)"

definition client_usage :: "string list \<Rightarrow> string" where
  "client_usage argv = ''Usage: '' @ argv0 argv @ '' <ip> <port> <id>'' @ [newline]"

definition client_init :: "abi \<Rightarrow> client_env \<Rightarrow> client_state" where
  "client_init a env =
     (let st = \<lparr>c_run = 1,
                c_mem = set_seq a 0 (fresh_block (hdr_size a + 100) (c_junk env)),
                c_trace = [Socket]\<rparr>
      in if c_early_sig env then client_handle_sig st else st)"

definition client_main :: "abi \<Rightarrow> client_env \<Rightarrow> outcome" where
  "client_main a env =
     (if int (length (c_argv env)) < 4
      then \<lparr>exit_status = Some 1, effects = [Stderr (client_usage (c_argv env))]\<rparr>
      else case client_loop a (client_init a env) (c_ticks env) of
             Pending st \<Rightarrow> \<lparr>exit_status = None, effects = c_trace st\<rparr>
           | Exited st \<Rightarrow> \<lparr>exit_status = Some 0, effects = c_trace st @ [Free, Close]\<rparr>)"

subsection \<open>The server\<close>

datatype recv = Datagram "byte list" | RecvFail

record server_tick =
  s_recv :: recv
  s_now :: "64 word"
  s_sig :: bool

record server_env =
  s_argv :: "string list"
  s_bind_ok :: bool
  s_fopen_ok :: bool
  s_errmsg :: string
  s_junk :: "nat \<Rightarrow> byte"
  s_early_sig :: bool
  s_ticks :: "server_tick list"

record server_state =
  s_run :: int
  s_buffer :: "byte list"
  s_trace :: "effect list"

definition server_handle_sig :: "server_state \<Rightarrow> server_state" where
  "server_handle_sig st = st\<lparr>s_run := 0\<rparr>"

text \<open>
  \<^verbatim>\<open>recvfrom(sockfd, buffer, len, ...)\<close>: a datagram is copied to the start of the buffer, cut
  to \<open>len\<close> bytes, and its (cut) length returned; a failure returns -1 and leaves the buffer.
\<close>

fun recvfrom :: "byte list \<Rightarrow> nat \<Rightarrow> recv \<Rightarrow> int \<times> byte list" where
  "recvfrom buf len (Datagram d) = (int (min (length d) len), store 0 (take len d) buf)"
| "recvfrom buf len RecvFail = (- 1, buf)"

text \<open>
  The conversion of an \<^verbatim>\<open>int\<close> to \<^verbatim>\<open>size_t\<close> (64 bits) that C applies to \<open>n\<close> in
  \<^verbatim>\<open>n >= sizeof(stgen_hdr_t)\<close>, whose right operand is unsigned.
\<close>

definition to_size_t :: "int \<Rightarrow> nat" where
  "to_size_t n = nat (n mod 2 ^ 64)"

definition clamp_lat :: "64 word \<Rightarrow> 64 word" where
  "clamp_lat lat = (if sint lat < 0 then 0 else lat)"

definition server_body :: "abi \<Rightarrow> server_tick \<Rightarrow> server_state \<Rightarrow> server_state" where
  "server_body a tk st =
     (let (n, buf) = recvfrom (s_buffer st) buffer_size (s_recv tk);
          st1 = st\<lparr>s_buffer := buf\<rparr>;
          st2 = (if hdr_size a \<le> to_size_t n
                 then let now = s_now tk;
                          lat = clamp_lat (now - get_send_time_us a buf)
                      in st1\<lparr>s_trace := s_trace st1 @ [LogWrite (log_line (get_seq a buf) lat)]\<rparr>
                 else st1)
      in if s_sig tk then server_handle_sig st2 else st2)"

fun server_loop :: "abi \<Rightarrow> server_state \<Rightarrow> server_tick list \<Rightarrow> server_state loop_end" where
  "server_loop a st [] = (if s_run st \<noteq> 0 then Pending st else Exited st)"
| "server_loop a st (tk # rest) =
     (if s_run st \<noteq> 0 then server_loop a (server_body a tk st) rest else Exited st)"

definition server_usage :: "string list \<Rightarrow> string" where
  "server_usage argv = ''Usage: '' @ argv0 argv @ '' <ip> <port>'' @ [newline]"

text \<open>\<^verbatim>\<open>perror(s)\<close>: the string, a colon, the message of \<^verbatim>\<open>errno\<close>, a newline.\<close>

definition perror :: "string \<Rightarrow> string \<Rightarrow> effect" where
  "perror s msg = Stderr (s @ '': '' @ msg @ [newline])"

definition server_init :: "server_env \<Rightarrow> server_state" where
  "server_init env =
     (let st = \<lparr>s_run = 1,
                s_buffer = fresh_block buffer_size (s_junk env),
                s_trace = [Socket, Bind, Fopen]\<rparr>
      in if s_early_sig env then server_handle_sig st else st)"

definition server_main :: "abi \<Rightarrow> server_env \<Rightarrow> outcome" where
  "server_main a env =
     (if int (length (s_argv env)) < 3
      then \<lparr>exit_status = Some 1, effects = [Stderr (server_usage (s_argv env))]\<rparr>
      else if \<not> s_bind_ok env
      then \<lparr>exit_status = Some 1,
            effects = [Socket, Bind, perror ''bind failed'' (s_errmsg env)]\<rparr>
      else if \<not> s_fopen_ok env
      then \<lparr>exit_status = Some 1,
            effects = [Socket, Bind, Fopen, perror ''recv.log'' (s_errmsg env)]\<rparr>
      else case server_loop a (server_init env) (s_ticks env) of
             Pending st \<Rightarrow> \<lparr>exit_status = None, effects = s_trace st\<rparr>
           | Exited st \<Rightarrow> \<lparr>exit_status = Some 0, effects = s_trace st @ [Fclose, Close]\<rparr>)"

subsection \<open>Vocabulary of the statements\<close>

text \<open>The block after a pass of the client wrote sequence \<open>s\<close> and time \<open>t\<close> to it.\<close>

definition stamp :: "abi \<Rightarrow> 32 word \<Rightarrow> 64 word \<Rightarrow> byte list \<Rightarrow> byte list" where
  "stamp a s t mem = set_send_time_us a t (set_seq a s mem)"

text \<open>The datagram of pass \<open>k\<close> (counted from 0), stamped at time \<open>t\<close>, over the block \<open>mem\<close>.\<close>

definition probe :: "abi \<Rightarrow> byte list \<Rightarrow> nat \<Rightarrow> 64 word \<Rightarrow> byte list" where
  "probe a mem k t = load 0 (hdr_size a + 100) (stamp a (word_of_nat (k + 1)) t mem)"

text \<open>The inputs a loop consumes: all up to and including the first that carries a signal.\<close>

fun upto_first :: "('a \<Rightarrow> bool) \<Rightarrow> 'a list \<Rightarrow> 'a list" where
  "upto_first P [] = []"
| "upto_first P (x # xs) = (if P x then [x] else x # upto_first P xs)"

text \<open>
  The record a datagram and the time of its receipt call for, and the log writes of a pass
  that receives a datagram. (After a failed receive the write depends on the buffer, see
  \<open>server_body_recvfail\<close>; the statements that use \<open>datagram_log\<close> exclude that case.)
\<close>

definition record_of :: "abi \<Rightarrow> byte list \<Rightarrow> 64 word \<Rightarrow> string" where
  "record_of a d now = log_line (get_seq a d) (clamp_lat (now - get_send_time_us a d))"

definition datagram_log :: "abi \<Rightarrow> server_tick \<Rightarrow> effect list" where
  "datagram_log a tk =
     (case s_recv tk of
        Datagram d \<Rightarrow> (if hdr_size a \<le> length d then [LogWrite (record_of a d (s_now tk))] else [])
      | RecvFail \<Rightarrow> [])"

text \<open>
  What the passes of the client's loop do, over the block \<open>mem\<close> whose sequence field
  holds \<open>s\<close> when the loop is entered.
\<close>

definition passes :: "abi \<Rightarrow> byte list \<Rightarrow> 32 word \<Rightarrow> client_tick list \<Rightarrow> effect list" where
  "passes a mem s ticks =
     concat (map (\<lambda>k. [Sendto (load 0 (hdr_size a + 100)
                          (stamp a (s + word_of_nat (k + 1)) (c_now (ticks ! k)) mem)),
                        Usleep 100000])
               [0..<length (upto_first c_sig ticks)])"

subsection \<open>Sample inputs\<close>

definition demo_client :: client_env where
  "demo_client =
     \<lparr>c_argv = [''client'', ''127.0.0.1'', ''9000'', ''7''],
      c_junk = zero_junk,
      c_early_sig = False,
      c_ticks = [\<lparr>c_now = 1000, c_sig = False\<rparr>, \<lparr>c_now = 101000, c_sig = True\<rparr>,
                 \<lparr>c_now = 201000, c_sig = False\<rparr>]\<rparr>"

definition demo_block :: "byte list" where
  "demo_block = fresh_block 112 zero_junk"

definition demo_state :: server_state where
  "demo_state = \<lparr>s_run = 1, s_buffer = fresh_block buffer_size zero_junk, s_trace = []\<rparr>"

definition skewed_tick :: server_tick where
  "skewed_tick = \<lparr>s_recv = Datagram (probe packed_le demo_block 0 5000), s_now = 3000, s_sig = False\<rparr>"

definition short_tick :: server_tick where
  "short_tick = \<lparr>s_recv = Datagram [1, 2, 3, 4], s_now = 3000, s_sig = False\<rparr>"

definition bare_header :: "byte list" where
  "bare_header = take 12 (stamp packed_le 7 5000 demo_block)"

definition bare_tick :: server_tick where
  "bare_tick = \<lparr>s_recv = Datagram bare_header, s_now = 5250, s_sig = False\<rparr>"

definition failing_server :: server_env where
  "failing_server =
     \<lparr>s_argv = [''server'', ''127.0.0.1'', ''9000''],
      s_bind_ok = True,
      s_fopen_ok = True,
      s_errmsg = [],
      s_junk = zero_junk,
      s_early_sig = False,
      s_ticks = [\<lparr>s_recv = Datagram (probe packed_le demo_block 0 1000), s_now = 1500, s_sig = False\<rparr>,
                 \<lparr>s_recv = RecvFail, s_now = 2000, s_sig = True\<rparr>]\<rparr>"

definition no_args_client :: client_env where
  "no_args_client = demo_client\<lparr>c_argv := [''client'', ''127.0.0.1'']\<rparr>"

definition demo_server :: server_env where
  "demo_server =
     \<lparr>s_argv = [''server'', ''127.0.0.1'', ''9000''],
      s_bind_ok = True,
      s_fopen_ok = True,
      s_errmsg = ''Address already in use'',
      s_junk = zero_junk,
      s_early_sig = True,
      s_ticks = []\<rparr>"

definition no_args_server :: server_env where
  "no_args_server = demo_server\<lparr>s_argv := [''server'']\<rparr>"

definition no_bind_server :: server_env where
  "no_bind_server = demo_server\<lparr>s_bind_ok := False\<rparr>"

definition no_log_server :: server_env where
  "no_log_server = demo_server\<lparr>s_fopen_ok := False, s_errmsg := ''Permission denied''\<rparr>"

definition early_client :: client_env where
  "early_client = demo_client\<lparr>c_early_sig := True\<rparr>"

definition stopped_client :: client_state where
  "stopped_client = \<lparr>c_run = 0, c_mem = demo_block, c_trace = [Socket]\<rparr>"

definition lossless_server :: server_env where
  "lossless_server =
     \<lparr>s_argv = [''server'', ''127.0.0.1'', ''9000''],
      s_bind_ok = True,
      s_fopen_ok = True,
      s_errmsg = [],
      s_junk = zero_junk,
      s_early_sig = False,
      s_ticks = [\<lparr>s_recv = Datagram (probe packed_le demo_block 0 1000), s_now = 1250, s_sig = False\<rparr>,
                 \<lparr>s_recv = Datagram (probe packed_le demo_block 1 101000), s_now = 100900, s_sig = False\<rparr>]\<rparr>"

definition first_tick :: client_tick where
  "first_tick = \<lparr>c_now = 1000, c_sig = False\<rparr>"

definition first_pass :: client_state where
  "first_pass = client_body packed_le first_tick (client_init packed_le demo_client)"

definition arrival_tick :: server_tick where
  "arrival_tick = \<lparr>s_recv = Datagram (last (sent (c_trace first_pass))), s_now = 1250, s_sig = False\<rparr>"

definition wire_tick :: server_tick where
  "wire_tick =
     \<lparr>s_recv = Datagram (sent (effects (client_main packed_le demo_client)) ! 0),
      s_now = 1250, s_sig = False\<rparr>"

section \<open>Memory and field access\<close>

lemma length_le_bytes [simp]: "length (le_bytes n w) = n"
  by (induction n arbitrary: w) simp_all

lemma byte_step:
  "(ucast (ucast w :: byte) :: 'a::len word) OR push_bit 8 (take_bit m (drop_bit 8 w))
     = take_bit (8 + m) (w :: 'a word)"
  by (rule bit_word_eqI) (auto simp: bit_simps)

lemma le_word_le_bytes: "le_word (le_bytes n w) = take_bit (8 * n) (w :: 'a::len word)"
proof (induction n arbitrary: w)
  case 0
  show ?case by simp
next
  case (Suc n)
  have "le_word (le_bytes (Suc n) w)
          = ucast (ucast w :: byte) OR push_bit 8 (take_bit (8 * n) (drop_bit 8 w))"
    by (simp add: Suc)
  also have "\<dots> = take_bit (8 + 8 * n) w"
    by (rule byte_step)
  finally show ?case by simp
qed

lemma length_word_bytes [simp]: "length (word_bytes a n w) = n"
  by (simp add: word_bytes_def)

lemma bytes_word_bytes32 [simp]: "bytes_word a (word_bytes a 4 (w :: 32 word)) = w"
  by (simp add: bytes_word_def word_bytes_def le_word_le_bytes take_bit_word_eq_self)

lemma bytes_word_bytes64 [simp]: "bytes_word a (word_bytes a 8 (w :: 64 word)) = w"
  by (simp add: bytes_word_def word_bytes_def le_word_le_bytes take_bit_word_eq_self)

lemma length_store [simp]: "length (store off bs mem) = length mem"
  by (simp add: store_def)

lemma nth_store:
  "i < length mem \<Longrightarrow>
     store off bs mem ! i = (if off \<le> i \<and> i < off + length bs then bs ! (i - off) else mem ! i)"
  by (simp add: store_def)

lemma length_load: "off + n \<le> length mem \<Longrightarrow> length (load off n mem) = n"
  by (simp add: load_def)

lemma nth_load: "i < n \<Longrightarrow> off + n \<le> length mem \<Longrightarrow> load off n mem ! i = mem ! (off + i)"
  by (simp add: load_def)

lemma load_store_same:
  "off + length bs \<le> length mem \<Longrightarrow> load off (length bs) (store off bs mem) = bs"
  by (rule nth_equalityI) (simp_all add: length_load nth_load nth_store)

lemma load_store_other:
  "off + n \<le> length mem \<Longrightarrow> off + n \<le> off' \<or> off' + length bs \<le> off \<Longrightarrow>
     load off n (store off' bs mem) = load off n mem"
  by (rule nth_equalityI) (auto simp: length_load nth_load nth_store)

lemma store_store_same:
  "length bs = length bs' \<Longrightarrow> store off bs (store off bs' mem) = store off bs mem"
  by (rule nth_equalityI) (simp_all add: nth_store)

lemma store_store_commute:
  "off + length bs \<le> off' \<Longrightarrow>
     store off bs (store off' bs' mem) = store off' bs' (store off bs mem)"
  by (rule nth_equalityI) (auto simp: nth_store)

lemma load_prefix:
  "off + n \<le> k \<Longrightarrow> load off n (take k mem) = load off n mem"
  by (simp add: load_def take_drop min_def) 

lemma load_all: "length mem = n \<Longrightarrow> load 0 n mem = mem"
  by (simp add: load_def)

lemma load_store_within:
  "off' \<le> off \<Longrightarrow> off + n \<le> off' + length bs \<Longrightarrow> off' + length bs \<le> length mem \<Longrightarrow>
     load off n (store off' bs mem) = load (off - off') n bs"
  by (rule nth_equalityI) (auto simp: length_load nth_load nth_store)

lemma get_seq_set_seq [simp]: "4 \<le> length mem \<Longrightarrow> get_seq a (set_seq a v mem) = v"
  using load_store_same [of 0 "word_bytes a 4 v" mem]
  by (simp add: get_seq_def set_seq_def)

lemma get_time_set_time [simp]:
  "time_off a + 8 \<le> length mem \<Longrightarrow> get_send_time_us a (set_send_time_us a v mem) = v"
  using load_store_same [of "time_off a" "word_bytes a 8 v" mem]
  by (simp add: get_send_time_us_def set_send_time_us_def)

lemma get_seq_set_time [simp]:
  "4 \<le> time_off a \<Longrightarrow> time_off a + 8 \<le> length mem \<Longrightarrow>
     get_seq a (set_send_time_us a v mem) = get_seq a mem"
  by (simp add: get_seq_def set_send_time_us_def load_store_other)

lemma get_time_set_seq [simp]:
  "4 \<le> time_off a \<Longrightarrow> time_off a + 8 \<le> length mem \<Longrightarrow>
     get_send_time_us a (set_seq a v mem) = get_send_time_us a mem"
  by (simp add: get_send_time_us_def set_seq_def load_store_other)

lemma length_set_seq [simp]: "length (set_seq a v mem) = length mem"
  by (simp add: set_seq_def)

lemma length_set_time [simp]: "length (set_send_time_us a v mem) = length mem"
  by (simp add: set_send_time_us_def)

lemma length_stamp [simp]: "length (stamp a s t mem) = length mem"
  by (simp add: stamp_def)

lemma get_seq_stamp [simp]:
  "4 \<le> time_off a \<Longrightarrow> time_off a + 8 \<le> length mem \<Longrightarrow> get_seq a (stamp a s t mem) = s"
  by (simp add: stamp_def)

lemma get_time_stamp [simp]:
  "time_off a + 8 \<le> length mem \<Longrightarrow> get_send_time_us a (stamp a s t mem) = t"
  by (simp add: stamp_def)

lemma stamp_stamp [simp]:
  "4 \<le> time_off a \<Longrightarrow> stamp a s' t' (stamp a s t mem) = stamp a s' t' mem"
proof -
  assume off: "4 \<le> time_off a"
  have "set_seq a s' (set_send_time_us a t (set_seq a s mem))
          = set_send_time_us a t (set_seq a s' (set_seq a s mem))"
    using off store_store_commute [of 0 "word_bytes a 4 s'" "time_off a" "word_bytes a 8 t"]
    by (simp add: set_seq_def set_send_time_us_def)
  also have "\<dots> = set_send_time_us a t (set_seq a s' mem)"
    by (simp add: set_seq_def store_store_same)
  finally show ?thesis
    by (simp add: stamp_def set_send_time_us_def store_store_same)
qed

lemma stamp_set_seq [simp]: "stamp a s t (set_seq a v mem) = stamp a s t mem"
  by (simp add: stamp_def set_seq_def store_store_same)

lemma load_seq_stamp:
  "4 \<le> time_off a \<Longrightarrow> time_off a + 8 \<le> length mem \<Longrightarrow>
     load 0 4 (stamp a s t mem) = word_bytes a 4 s"
  using load_store_same [of 0 "word_bytes a 4 s" mem]
  by (simp add: stamp_def set_send_time_us_def set_seq_def load_store_other)

lemma load_time_stamp:
  "time_off a + 8 \<le> length mem \<Longrightarrow>
     load (time_off a) 8 (stamp a s t mem) = word_bytes a 8 t"
  using load_store_same [of "time_off a" "word_bytes a 8 t" "set_seq a s mem"]
  by (simp add: stamp_def set_send_time_us_def)

lemma length_fresh_block [simp]: "length (fresh_block n junk) = n"
  by (simp add: fresh_block_def)

section \<open>The client's loop\<close>

lemma sent_append [simp]: "sent (xs @ ys) = sent xs @ sent ys"
  by (induction xs rule: sent.induct) simp_all

lemma sent_passes [simp]:
  "sent (concat (map (\<lambda>k. [Sendto (f k), Usleep n]) ks)) = map f ks"
  by (induction ks) simp_all

lemma length_upto_first: "length (upto_first P xs) \<le> length xs"
  by (induction xs) simp_all

lemma upto_first_nth: "k < length (upto_first P xs) \<Longrightarrow> upto_first P xs ! k = xs ! k"
  by (induction xs arbitrary: k) (auto simp: nth_Cons' split: if_splits)

lemma upto_first_none: "\<forall>x\<in>set xs. \<not> P x \<Longrightarrow> upto_first P xs = xs"
  by (induction xs) simp_all

lemma upto_first_split:
  "\<forall>x\<in>set pre. \<not> P x \<Longrightarrow> P x \<Longrightarrow> upto_first P (pre @ x # post) = pre @ [x]"
  by (induction pre) simp_all

lemma upto_first_butlast:
  "\<forall>x\<in>set (butlast xs). \<not> P x \<Longrightarrow> upto_first P xs = xs"
  by (induction xs) (auto split: if_splits)

lemma client_loop_stopped: "c_run st = 0 \<Longrightarrow> client_loop a st ticks = Exited st"
  by (cases ticks) simp_all

lemma client_body_mem:
  "c_mem (client_body a tk st) = stamp a (get_seq a (c_mem st) + 1) (c_now tk) (c_mem st)"
  by (simp add: client_body_def Let_def stamp_def client_handle_sig_def)

lemma client_body_trace:
  "c_trace (client_body a tk st) =
     c_trace st @ [Sendto (load 0 (hdr_size a + 100)
                     (stamp a (get_seq a (c_mem st) + 1) (c_now tk) (c_mem st))), Usleep 100000]"
  by (simp add: client_body_def Let_def stamp_def client_handle_sig_def)

lemma client_body_run:
  "c_run (client_body a tk st) = (if c_sig tk then 0 else c_run st)"
  by (simp add: client_body_def Let_def client_handle_sig_def)

lemma passes_Nil [simp]: "passes a mem s [] = []"
  by (simp add: passes_def)

lemma passes_Cons:
  "passes a mem s (tk # rest) =
     Sendto (load 0 (hdr_size a + 100) (stamp a (s + 1) (c_now tk) mem)) # Usleep 100000 #
       (if c_sig tk then [] else passes a mem (s + 1) rest)"
  by (simp add: passes_def map_upt_Suc add.assoc del: upt_Suc)

lemma client_loop_trace:
  assumes "4 \<le> time_off a" and "time_off a + 8 \<le> length (c_mem st)" and "c_run st \<noteq> 0"
  shows "\<exists>st'. client_loop a st ticks = (if list_ex c_sig ticks then Exited st' else Pending st')
           \<and> c_trace st' = c_trace st @ passes a (c_mem st) (get_seq a (c_mem st)) ticks"
  using assms
proof (induction ticks arbitrary: st)
  case Nil
  then show ?case by simp
next
  case (Cons tk rest)
  let ?st1 = "client_body a tk st"
  show ?case
  proof (cases "c_sig tk")
    case True
    then have "client_loop a st (tk # rest) = Exited ?st1"
      using Cons.prems by (simp add: client_loop_stopped client_body_run)
    then show ?thesis
      using True by (simp add: passes_Cons client_body_trace)
  next
    case False
    have run1: "c_run ?st1 \<noteq> 0"
      using False Cons.prems by (simp add: client_body_run)
    have len1: "time_off a + 8 \<le> length (c_mem ?st1)"
      using Cons.prems by (simp add: client_body_mem)
    from Cons.IH [OF Cons.prems(1) len1 run1]
    obtain st' where
      loop: "client_loop a ?st1 rest = (if list_ex c_sig rest then Exited st' else Pending st')"
      and tr: "c_trace st' = c_trace ?st1 @ passes a (c_mem ?st1) (get_seq a (c_mem ?st1)) rest"
      by blast
    have seq1: "get_seq a (c_mem ?st1) = get_seq a (c_mem st) + 1"
      using Cons.prems by (simp add: client_body_mem)
    have same: "passes a (c_mem ?st1) s rest = passes a (c_mem st) s rest" for s
      using Cons.prems(1) by (simp add: passes_def client_body_mem)
    have "client_loop a st (tk # rest) = (if list_ex c_sig (tk # rest) then Exited st' else Pending st')"
      using loop False Cons.prems by simp
    moreover have "c_trace st' = c_trace st @ passes a (c_mem st) (get_seq a (c_mem st)) (tk # rest)"
      using tr False by (simp add: passes_Cons client_body_trace seq1 same)
    ultimately show ?thesis by blast
  qed
qed

lemma passes_probes:
  "passes a (set_seq a 0 mem) 0 ticks =
     concat (map (\<lambda>k. [Sendto (probe a mem k (c_now (ticks ! k))), Usleep 100000])
               [0..<length (upto_first c_sig ticks)])"
  by (simp add: passes_def probe_def)

lemma client_main_run:
  assumes "abi_ok a" and "4 \<le> length (c_argv env)" and "\<not> c_early_sig env"
  shows "client_main a env =
           \<lparr>exit_status = (if list_ex c_sig (c_ticks env) then Some 0 else None),
            effects = Socket #
              concat (map (\<lambda>k. [Sendto (probe a (fresh_block (hdr_size a + 100) (c_junk env)) k
                                          (c_now (c_ticks env ! k))), Usleep 100000])
                        [0..<length (upto_first c_sig (c_ticks env))])
              @ (if list_ex c_sig (c_ticks env) then [Free, Close] else [])\<rparr>"
proof -
  let ?st = "client_init a env"
  have off: "4 \<le> time_off a" and fit: "time_off a + 8 \<le> hdr_size a"
    using assms(1) by (simp_all add: abi_ok_def)
  have mem: "c_mem ?st = set_seq a 0 (fresh_block (hdr_size a + 100) (c_junk env))"
    and run: "c_run ?st \<noteq> 0" and tr: "c_trace ?st = [Socket]"
    using assms(3) by (simp_all add: client_init_def Let_def)
  have len: "time_off a + 8 \<le> length (c_mem ?st)"
    using fit by (simp add: mem)
  have seq0: "get_seq a (c_mem ?st) = 0"
    using fit by (simp add: mem)
  from client_loop_trace [OF off len run, of "c_ticks env"]
  obtain st' where
    loop: "client_loop a ?st (c_ticks env) =
             (if list_ex c_sig (c_ticks env) then Exited st' else Pending st')"
    and tr': "c_trace st' = c_trace ?st @ passes a (c_mem ?st) (get_seq a (c_mem ?st)) (c_ticks env)"
    by blast
  have "c_trace st' = Socket #
          concat (map (\<lambda>k. [Sendto (probe a (fresh_block (hdr_size a + 100) (c_junk env)) k
                                      (c_now (c_ticks env ! k))), Usleep 100000])
                    [0..<length (upto_first c_sig (c_ticks env))])"
    by (simp add: tr' tr seq0 mem passes_probes)
  then show ?thesis
    using assms(2) loop by (simp add: client_main_def)
qed

lemma probe_fields:
  assumes "abi_ok a" and "length mem = hdr_size a + 100"
  shows "probe a mem k t = stamp a (word_of_nat (k + 1)) t mem"
    and "length (probe a mem k t) = hdr_size a + 100"
    and "get_seq a (probe a mem k t) = word_of_nat (k + 1)"
    and "get_send_time_us a (probe a mem k t) = t"
proof -
  show eq: "probe a mem k t = stamp a (word_of_nat (k + 1)) t mem"
    using assms(2) by (simp add: probe_def load_all)
  have "4 \<le> time_off a" and "time_off a + 8 \<le> length mem"
    using assms by (simp_all add: abi_ok_def)
  then show "get_seq a (probe a mem k t) = word_of_nat (k + 1)"
    and "get_send_time_us a (probe a mem k t) = t"
    by (simp_all add: eq)
  show "length (probe a mem k t) = hdr_size a + 100"
    using assms(2) by (simp add: eq)
qed

section \<open>Latency, decimal output and the server's loop\<close>

lemma sint_diff_gen:
  fixes x y :: "'a::len word"
  assumes "- (2 ^ (LENGTH('a) - 1)) \<le> uint x - uint y"
    and "uint x - uint y < 2 ^ (LENGTH('a) - 1)"
  shows "sint (x - y) = uint x - uint y"
proof -
  have "sint (x - y) = signed_take_bit (LENGTH('a) - 1) (uint x - uint y)"
    by (simp only: word_sub_wi sint_sbintrunc')
  also have "\<dots> = uint x - uint y"
    using assms by (rule signed_take_bit_int_eq_self)
  finally show ?thesis .
qed

lemma sint_diff_exact:
  fixes now t :: "64 word"
  assumes "- (2 ^ 63) \<le> uint now - uint t" and "uint now - uint t < 2 ^ 63"
  shows "sint (now - t) = uint now - uint t"
  using assms sint_diff_gen [of now t] by simp

lemma clamp_lat_nonneg: "0 \<le> sint (clamp_lat x)"
  by (simp add: clamp_lat_def)

lemma clamp_lat_max: "sint (clamp_lat x) = max 0 (sint x)"
  by (simp add: clamp_lat_def max_def)

lemma digit_not_newline: "n < 10 \<Longrightarrow> digit n \<noteq> newline"
proof -
  assume "n < 10"
  then have "digit n \<in> set ''0123456789''"
    unfolding digit_def by (intro nth_mem) simp
  then show ?thesis
    by (auto simp: newline_def)
qed

lemma dec_no_newline: "newline \<notin> set (dec n)"
proof (induction n rule: dec.induct)
  case (1 n)
  show ?case
  proof (cases "n < 10")
    case True
    then show ?thesis
      using digit_not_newline [of n] by (simp add: dec.simps [of n])
  next
    case False
    then show ?thesis
      using 1 digit_not_newline [of "n mod 10"] by (simp add: dec.simps [of n])
  qed
qed

lemma sdec_no_newline: "newline \<notin> set (sdec i)"
  using dec_no_newline by (simp add: sdec_def newline_def)

lemma count_lines_Nil [simp]: "count_lines [] = 0"
  by (simp add: count_lines_def)

lemma count_lines_append [simp]: "count_lines (xs @ ys) = count_lines xs + count_lines ys"
  by (simp add: count_lines_def)

lemma count_lines_none: "newline \<notin> set s \<Longrightarrow> count_lines s = 0"
  by (induction s) (auto simp: count_lines_def)

lemma count_lines_Cons [simp]:
  "count_lines (c # s) = (if c = newline then 1 else 0) + count_lines s"
  by (simp add: count_lines_def)

lemma count_lines_log_line [simp]: "count_lines (log_line s lat) = 1"
proof -
  have "CHR '' '' \<noteq> newline"
    by (simp add: newline_def)
  then show ?thesis
    by (simp add: log_line_def count_lines_none dec_no_newline sdec_no_newline)
qed

lemma to_size_t_nat: "n < 2 ^ 64 \<Longrightarrow> to_size_t (int n) = n"
  by (simp add: to_size_t_def)

lemma to_size_t_minus1: "to_size_t (- 1) = 2 ^ 64 - 1"
  by (simp add: to_size_t_def)

lemma load_recv:
  assumes "off + n \<le> len" and "off + n \<le> length d" and "length buf = len"
  shows "load off n (store 0 (take len d) buf) = load off n d"
proof -
  have "load off n (store 0 (take len d) buf) = load (off - 0) n (take len d)"
    using assms by (intro load_store_within) simp_all
  then show ?thesis
    using assms(1) by (simp add: load_prefix)
qed

lemma recv_header:
  assumes "abi_ok a" and "hdr_size a \<le> length d" and "length buf = len" and "hdr_size a \<le> len"
  shows "get_seq a (store 0 (take len d) buf) = get_seq a d"
    and "get_send_time_us a (store 0 (take len d) buf) = get_send_time_us a d"
proof -
  have b: "4 \<le> time_off a" "time_off a + 8 \<le> hdr_size a"
    using assms(1) by (simp_all add: abi_ok_def)
  have "load 0 4 (store 0 (take len d) buf) = load 0 4 d"
    using b assms(2-4) by (intro load_recv) simp_all
  then show "get_seq a (store 0 (take len d) buf) = get_seq a d"
    by (simp add: get_seq_def)
  have "load (time_off a) 8 (store 0 (take len d) buf) = load (time_off a) 8 d"
    using b assms(2-4) by (intro load_recv) simp_all
  then show "get_send_time_us a (store 0 (take len d) buf) = get_send_time_us a d"
    by (simp add: get_send_time_us_def)
qed

lemma server_body_run: "s_run (server_body a tk st) = (if s_sig tk then 0 else s_run st)"
  by (simp add: server_body_def Let_def server_handle_sig_def split: prod.splits)

lemma server_body_buffer_length:
  "length (s_buffer (server_body a tk st)) = length (s_buffer st)"
  by (cases "s_recv tk")
    (simp_all add: server_body_def Let_def server_handle_sig_def split: prod.splits)

lemma server_body_datagram:
  assumes "abi_ok a" and "length (s_buffer st) = buffer_size" and "s_recv tk = Datagram d"
  shows "s_trace (server_body a tk st) = s_trace st @ datagram_log a tk"
proof -
  have big: "hdr_size a \<le> buffer_size"
    using assms(1) by (simp add: abi_ok_def)
  have "min (length d) buffer_size < 2 ^ 64"
    by (simp add: buffer_size_def min_def)
  then have n: "to_size_t (int (min (length d) buffer_size)) = min (length d) buffer_size"
    by (rule to_size_t_nat)
  show ?thesis
  proof (cases "hdr_size a \<le> length d")
    case True
    then show ?thesis
      using big n recv_header [OF assms(1) True assms(2) big] assms(3)
      by (simp add: server_body_def Let_def server_handle_sig_def datagram_log_def
          record_of_def)
  next
    case False
    then show ?thesis
      using big n assms(3)
      by (simp add: server_body_def Let_def server_handle_sig_def datagram_log_def)
  qed
qed

lemma server_body_recvfail:
  assumes "abi_ok a" and "s_recv tk = RecvFail"
  shows "s_trace (server_body a tk st) =
           s_trace st @ [LogWrite (record_of a (s_buffer st) (s_now tk))]"
proof -
  have "hdr_size a \<le> 2 ^ 64 - 1"
    using assms(1) by (simp add: abi_ok_def buffer_size_def)
  then show ?thesis
    using assms(2)
    by (simp add: server_body_def Let_def server_handle_sig_def to_size_t_minus1 record_of_def)
qed

lemma server_loop_stopped: "s_run st = 0 \<Longrightarrow> server_loop a st ticks = Exited st"
  by (cases ticks) simp_all

lemma server_loop_trace:
  assumes "abi_ok a" and "length (s_buffer st) = buffer_size" and "s_run st \<noteq> 0"
    and "\<forall>tk\<in>set ticks. s_recv tk \<noteq> RecvFail"
  shows "\<exists>st'. server_loop a st ticks = (if list_ex s_sig ticks then Exited st' else Pending st')
           \<and> s_trace st' = s_trace st @ concat (map (datagram_log a) (upto_first s_sig ticks))"
  using assms
proof (induction ticks arbitrary: st)
  case Nil
  then show ?case by simp
next
  case (Cons tk rest)
  let ?st1 = "server_body a tk st"
  obtain d where d: "s_recv tk = Datagram d"
    using Cons.prems(4) by (cases "s_recv tk") simp_all
  have tr1: "s_trace ?st1 = s_trace st @ datagram_log a tk"
    using server_body_datagram [OF Cons.prems(1,2) d] .
  show ?case
  proof (cases "s_sig tk")
    case True
    then have "server_loop a st (tk # rest) = Exited ?st1"
      using Cons.prems by (simp add: server_loop_stopped server_body_run)
    then show ?thesis
      using True by (simp add: tr1)
  next
    case False
    have run1: "s_run ?st1 \<noteq> 0"
      using False Cons.prems by (simp add: server_body_run)
    have len1: "length (s_buffer ?st1) = buffer_size"
      using Cons.prems by (simp add: server_body_buffer_length)
    have rest: "\<forall>tk\<in>set rest. s_recv tk \<noteq> RecvFail"
      using Cons.prems(4) by simp
    from Cons.IH [OF Cons.prems(1) len1 run1 rest]
    obtain st' where
      loop: "server_loop a ?st1 rest = (if list_ex s_sig rest then Exited st' else Pending st')"
      and tr: "s_trace st' = s_trace ?st1 @ concat (map (datagram_log a) (upto_first s_sig rest))"
      by blast
    have "server_loop a st (tk # rest) = (if list_ex s_sig (tk # rest) then Exited st' else Pending st')"
      using loop False Cons.prems by simp
    moreover have "s_trace st' = s_trace st @ concat (map (datagram_log a) (upto_first s_sig (tk # rest)))"
      using tr False by (simp add: tr1)
    ultimately show ?thesis by blast
  qed
qed

section \<open>Whole runs and the sample inputs\<close>

lemma abi_ok_packed_le: "abi_ok packed_le"
  by (simp add: abi_ok_def packed_le_def buffer_size_def)

lemma length_demo_block: "length demo_block = hdr_size packed_le + 100"
  by (simp add: demo_block_def packed_le_def)

lemma length_demo_buffer: "length (s_buffer demo_state) = buffer_size"
  by (simp add: demo_state_def)

lemma dec_digit: "n < 10 \<Longrightarrow> dec n = [digit n]"
  by (simp add: dec.simps [of n])

lemma record_of_header:
  assumes "abi_ok a" and "hdr_size a \<le> n"
  shows "record_of a (take n d) now = record_of a d now"
proof -
  have "4 \<le> n" and "time_off a + 8 \<le> n"
    using assms by (simp_all add: abi_ok_def)
  then have "load 0 4 (take n d) = load 0 4 d"
    and "load (time_off a) 8 (take n d) = load (time_off a) 8 d"
    by (simp_all add: load_prefix)
  then show ?thesis
    by (simp add: record_of_def get_seq_def get_send_time_us_def)
qed

lemma server_body_buffer:
  "s_recv tk = Datagram d \<Longrightarrow>
     s_buffer (server_body a tk st) = store 0 (take buffer_size d) (s_buffer st)"
  by (simp add: server_body_def Let_def server_handle_sig_def)

lemma abi_ok_aligned_le: "abi_ok aligned_le"
  by (simp add: abi_ok_def aligned_le_def buffer_size_def)

lemma client_loop_status:
  "(case client_loop a st ticks of
      Pending st' \<Rightarrow> \<lparr>exit_status = None, effects = c_trace st'\<rparr>
    | Exited st' \<Rightarrow> \<lparr>exit_status = Some 0, effects = c_trace st' @ [Free, Close]\<rparr>) = out
   \<Longrightarrow> exit_status out = None \<or> exit_status out = Some 0"
  by (cases "client_loop a st ticks") auto

lemma server_loop_status:
  "(case server_loop a st ticks of
      Pending st' \<Rightarrow> \<lparr>exit_status = None, effects = s_trace st'\<rparr>
    | Exited st' \<Rightarrow> \<lparr>exit_status = Some 0, effects = s_trace st' @ [Fclose, Close]\<rparr>) = out
   \<Longrightarrow> exit_status out = None \<or> exit_status out = Some 0"
  by (cases "server_loop a st ticks") auto

lemma list_ex_split: "P x \<Longrightarrow> list_ex P (pre @ x # post)"
  by (simp add: list_ex_iff)

lemma client_sent:
  assumes "abi_ok a" and "4 \<le> length (c_argv env)" and "\<not> c_early_sig env"
  shows "sent (effects (client_main a env)) =
           map (\<lambda>k. probe a (fresh_block (hdr_size a + 100) (c_junk env)) k (c_now (c_ticks env ! k)))
             [0..<length (upto_first c_sig (c_ticks env))]"
  by (simp add: client_main_run [OF assms])

lemma client_sent_cases:
  assumes "abi_ok a" and "d \<in> set (sent (effects (client_main a env)))"
  shows "\<exists>k t. d = probe a (fresh_block (hdr_size a + 100) (c_junk env)) k t"
proof (cases "4 \<le> length (c_argv env)")
  case False
  then show ?thesis
    using assms(2) by (simp add: client_main_def)
next
  case argc: True
  show ?thesis
  proof (cases "c_early_sig env")
    case True
    have "c_run (client_init a env) = 0" and "c_trace (client_init a env) = [Socket]"
      using True by (simp_all add: client_init_def Let_def client_handle_sig_def)
    then show ?thesis
      using assms(2) argc by (simp add: client_main_def client_loop_stopped)
  next
    case False
    then show ?thesis
      using assms(2) client_sent [OF assms(1) argc False] by auto
  qed
qed

lemma le_bytes4_one: "le_bytes 4 (1 :: 32 word) = [1, 0, 0, 0]"
  by code_simp

lemma log_of_append [simp]: "log_of (xs @ ys) = log_of xs @ log_of ys"
  by (induction xs rule: log_of.induct) simp_all

lemma log_of_passes:
  "log_of (concat (map f xs)) = concat (map (\<lambda>x. log_of (f x)) xs)"
  by (induction xs) simp_all

lemma count_lines_records:
  "count_lines (concat (map (\<lambda>k. log_line (f k) (g k)) ks)) = length ks"
  by (induction ks) simp_all

lemma server_main_run:
  assumes "abi_ok a" and "3 \<le> length (s_argv env)" and "s_bind_ok env" and "s_fopen_ok env"
    and "\<not> s_early_sig env" and "\<forall>tk\<in>set (s_ticks env). s_recv tk \<noteq> RecvFail"
  shows "server_main a env =
           \<lparr>exit_status = (if list_ex s_sig (s_ticks env) then Some 0 else None),
            effects = [Socket, Bind, Fopen]
              @ concat (map (datagram_log a) (upto_first s_sig (s_ticks env)))
              @ (if list_ex s_sig (s_ticks env) then [Fclose, Close] else [])\<rparr>"
proof -
  let ?st = "server_init env"
  have len: "length (s_buffer ?st) = buffer_size" and run: "s_run ?st \<noteq> 0"
    and tr: "s_trace ?st = [Socket, Bind, Fopen]"
    using assms(5) by (simp_all add: server_init_def Let_def)
  from server_loop_trace [OF assms(1) len run assms(6)]
  obtain st' where
    loop: "server_loop a ?st (s_ticks env) =
             (if list_ex s_sig (s_ticks env) then Exited st' else Pending st')"
    and tr': "s_trace st' = s_trace ?st @ concat (map (datagram_log a) (upto_first s_sig (s_ticks env)))"
    by blast
  show ?thesis
    using assms(2-4) loop by (simp add: server_main_def tr' tr)
qed

lemma get_seq_same_order:
  assumes "big_endian b = big_endian a"
  shows "get_seq b mem = get_seq a mem"
  unfolding get_seq_def bytes_word_def assms by (rule refl)

lemma get_time_same_layout:
  assumes "big_endian b = big_endian a" and "time_off b = time_off a"
  shows "get_send_time_us b mem = get_send_time_us a mem"
  unfolding get_send_time_us_def bytes_word_def assms by (rule refl)

lemma record_of_same_layout:
  assumes "big_endian b = big_endian a" and "time_off b = time_off a"
  shows "record_of b d now = record_of a d now"
  unfolding record_of_def get_seq_same_order [OF assms(1)] get_time_same_layout [OF assms]
  by (rule refl)

lemma client_body_sent:
  assumes "length (c_mem st) = hdr_size a + 100"
  shows "sent (c_trace (client_body a tk st)) =
           sent (c_trace st) @ [stamp a (get_seq a (c_mem st) + 1) (c_now tk) (c_mem st)]"
  using assms by (simp add: client_body_trace load_all)

lemma abi_ok_packed_be: "abi_ok packed_be"
  by (simp add: abi_ok_def packed_be_def buffer_size_def)

lemma first_pass_sent: "last (sent (c_trace first_pass)) = stamp packed_le 1 1000 demo_block"
proof -
  have mem: "c_mem (client_init packed_le demo_client) = set_seq packed_le 0 demo_block"
    by (simp add: client_init_def Let_def demo_client_def demo_block_def packed_le_def)
  have len: "length (c_mem (client_init packed_le demo_client)) = hdr_size packed_le + 100"
    by (simp add: mem length_demo_block)
  have "get_seq packed_le (set_seq packed_le 0 demo_block) = 0"
    by (simp add: demo_block_def)
  then show ?thesis
    using client_body_sent [OF len, of first_tick]
    by (simp add: first_pass_def mem first_tick_def)
qed

lemma le_bytes8_1000: "le_bytes 8 (1000 :: 64 word) = [232, 3, 0, 0, 0, 0, 0, 0]"
  by code_simp

lemma le_bytes8_101000: "le_bytes 8 (101000 :: 64 word) = [136, 138, 1, 0, 0, 0, 0, 0]"
  by code_simp

lemma le_bytes4_two: "le_bytes 4 (2 :: 32 word) = [2, 0, 0, 0]"
  by code_simp

lemma swapped_fields:
  assumes "length mem = 112"
  shows "get_seq packed_be (stamp packed_le 1 1000 mem) = 16777216"
    and "get_send_time_us packed_be (stamp packed_le 1 1000 mem) = 16718206241729413120"
    and "get_seq packed_be (stamp packed_le 2 101000 mem) = 33554432"
    and "get_send_time_us packed_be (stamp packed_le 2 101000 mem) = 9838677435455897600"
proof -
  have m: "4 \<le> time_off packed_le" "time_off packed_le + 8 \<le> length mem"
    using assms by (simp_all add: packed_le_def)
  have off: "time_off packed_be = time_off packed_le"
    by (simp add: packed_be_def packed_le_def)
  have "load 0 4 (stamp packed_le 1 1000 mem) = [1, 0, 0, 0]"
    and "load 0 4 (stamp packed_le 2 101000 mem) = [2, 0, 0, 0]"
    using load_seq_stamp [OF m]
    by (simp_all add: word_bytes_def packed_le_def le_bytes4_one le_bytes4_two)
  then show "get_seq packed_be (stamp packed_le 1 1000 mem) = 16777216"
    and "get_seq packed_be (stamp packed_le 2 101000 mem) = 33554432"
    by (simp_all add: get_seq_def bytes_word_def packed_be_def)
  have "load (time_off packed_le) 8 (stamp packed_le 1 1000 mem) = [232, 3, 0, 0, 0, 0, 0, 0]"
    and "load (time_off packed_le) 8 (stamp packed_le 2 101000 mem) = [136, 138, 1, 0, 0, 0, 0, 0]"
    using load_time_stamp [OF m(2)]
    by (simp_all add: word_bytes_def packed_le_def le_bytes8_1000 le_bytes8_101000)
  then show "get_send_time_us packed_be (stamp packed_le 1 1000 mem) = 16718206241729413120"
    and "get_send_time_us packed_be (stamp packed_le 2 101000 mem) = 9838677435455897600"
    by (simp_all add: get_send_time_us_def bytes_word_def off) (simp_all add: packed_be_def)
qed

lemma client_sent_nth:
  assumes "abi_ok a" and "k < length (sent (effects (client_main a env)))"
  shows "sent (effects (client_main a env)) ! k =
           stamp a (word_of_nat (k + 1)) (c_now (c_ticks env ! k))
             (fresh_block (hdr_size a + 100) (c_junk env))"
proof -
  have argc: "4 \<le> length (c_argv env)"
  proof (rule ccontr)
    assume "\<not> 4 \<le> length (c_argv env)"
    then have "sent (effects (client_main a env)) = []"
      by (simp add: client_main_def)
    then show False
      using assms(2) by simp
  qed
  have late: "\<not> c_early_sig env"
  proof
    assume "c_early_sig env"
    then have "c_run (client_init a env) = 0" and "c_trace (client_init a env) = [Socket]"
      by (simp_all add: client_init_def Let_def client_handle_sig_def)
    then have "sent (effects (client_main a env)) = []"
      using argc by (simp add: client_main_def client_loop_stopped)
    then show False
      using assms(2) by simp
  qed
  have blk: "length (fresh_block (hdr_size a + 100) (c_junk env)) = hdr_size a + 100"
    by simp
  show ?thesis
    using assms(2) probe_fields(1) [OF assms(1) blk]
    by (simp add: client_sent [OF assms(1) argc late])
qed

lemma demo_sent:
  "sent (effects (client_main packed_le demo_client))
     = [stamp packed_le 1 1000 demo_block, stamp packed_le 2 101000 demo_block]"
proof -
  have argc: "4 \<le> length (c_argv demo_client)" and early: "\<not> c_early_sig demo_client"
    by (simp_all add: demo_client_def)
  have blk: "fresh_block (hdr_size packed_le + 100) (c_junk demo_client) = demo_block"
    by (simp add: demo_block_def packed_le_def demo_client_def)
  have "upto_first c_sig (c_ticks demo_client) =
      [\<lparr>c_now = 1000, c_sig = False\<rparr>, \<lparr>c_now = 101000, c_sig = True\<rparr>]"
    by (simp add: demo_client_def)
  then have "sent (effects (client_main packed_le demo_client)) =
      [probe packed_le demo_block 0 (c_now (c_ticks demo_client ! 0)),
       probe packed_le demo_block 1 (c_now (c_ticks demo_client ! 1))]"
    using client_sent [OF abi_ok_packed_le argc early] by (simp add: blk upt_rec)
  then show ?thesis
    using probe_fields(1) [OF abi_ok_packed_le length_demo_block]
    by (simp add: demo_client_def)
qed

lemma dec_step: "10 \<le> n \<Longrightarrow> dec n = dec (n div 10) @ [digit (n mod 10)]"
  by (simp add: dec.simps [of n])

lemma swapped_lat1: "clamp_lat (1250 - 16718206241729413120) = 1728537831980139746"
  by code_simp

lemma swapped_lat2: "clamp_lat (100900 - 9838677435455897600) = 8608066638253754916"
  by code_simp

lemma swapped_line1:
  "log_line 16777216 1728537831980139746 = ''16777216 1728537831980139746'' @ [newline]"
  by (simp add: log_line_def sdec_def dec_step dec_digit digit_def)

lemma swapped_line2:
  "log_line 33554432 8608066638253754916 = ''33554432 8608066638253754916'' @ [newline]"
  by (simp add: log_line_def sdec_def dec_step dec_digit digit_def)

section \<open>The claims\<close>

subsection \<open>The server logs one line with a clamped latency\<close>

text \<open>
  C1: for a received datagram at least as long as the header, the pass appends exactly one
  write to the log, the line \<open><sequence> <latency_us>\<close> followed by one newline and holding no
  other newline. The sequence is the one decoded from the datagram's header. The latency is
  the signed 64-bit difference of the time of receipt and the header's send time, replaced
  by 0 when negative, so it is never negative; whenever the difference of the two unsigned
  times fits 64 signed bits it is that difference, or 0 when the send time is the later one.
\<close>
theorem server_logs_clamped_latency:
  assumes "abi_ok a" and "length (s_buffer st) = buffer_size"
    and "s_recv tk = Datagram d" and "hdr_size a \<le> length d"
  shows "s_trace (server_body a tk st) =
           s_trace st @
           [LogWrite (dec (unat (get_seq a d)) @ '' '' @
                      dec (nat (sint (clamp_lat (s_now tk - get_send_time_us a d)))) @ [newline])]
         \<and> newline \<notin> set (dec (unat (get_seq a d)) @ '' '' @
                      dec (nat (sint (clamp_lat (s_now tk - get_send_time_us a d)))))
         \<and> sint (clamp_lat (s_now tk - get_send_time_us a d))
             = max 0 (sint (s_now tk - get_send_time_us a d))
         \<and> 0 \<le> sint (clamp_lat (s_now tk - get_send_time_us a d))
         \<and> (- (2 ^ 63) \<le> uint (s_now tk) - uint (get_send_time_us a d)
              \<and> uint (s_now tk) - uint (get_send_time_us a d) < 2 ^ 63
            \<longrightarrow> sint (clamp_lat (s_now tk - get_send_time_us a d))
                  = max 0 (uint (s_now tk) - uint (get_send_time_us a d)))"
proof -
  let ?lat = "clamp_lat (s_now tk - get_send_time_us a d)"
  have nonneg: "0 \<le> sint ?lat"
    by (rule clamp_lat_nonneg)
  have "s_trace (server_body a tk st) = s_trace st @ datagram_log a tk"
    using assms(1-3) by (rule server_body_datagram)
  also have "datagram_log a tk = [LogWrite (log_line (get_seq a d) ?lat)]"
    using assms(3,4) by (simp add: datagram_log_def record_of_def)
  also have "log_line (get_seq a d) ?lat =
      dec (unat (get_seq a d)) @ '' '' @ dec (nat (sint ?lat)) @ [newline]"
    using nonneg by (simp add: log_line_def sdec_def)
  finally have line: "s_trace (server_body a tk st) =
      s_trace st @ [LogWrite (dec (unat (get_seq a d)) @ '' '' @ dec (nat (sint ?lat)) @ [newline])]" .
  have "CHR '' '' \<noteq> newline"
    by (simp add: newline_def)
  then have one: "newline \<notin> set (dec (unat (get_seq a d)) @ '' '' @ dec (nat (sint ?lat)))"
    using dec_no_newline by simp
  have exact: "sint ?lat = max 0 (uint (s_now tk) - uint (get_send_time_us a d))"
    if "- (2 ^ 63) \<le> uint (s_now tk) - uint (get_send_time_us a d)"
      and "uint (s_now tk) - uint (get_send_time_us a d) < 2 ^ 63"
    using sint_diff_exact [OF that] by (simp only: clamp_lat_max)
  show ?thesis
    using line one nonneg exact clamp_lat_max [of "s_now tk - get_send_time_us a d"] by blast
qed

theorem server_logs_clamped_latency_witness:
  "s_trace (server_body packed_le skewed_tick demo_state) = [LogWrite (''1 0'' @ [newline])]"
proof -
  have d: "s_recv skewed_tick = Datagram (probe packed_le demo_block 0 5000)"
    and now: "s_now skewed_tick = 3000"
    by (simp_all add: skewed_tick_def)
  have len: "hdr_size packed_le \<le> length (probe packed_le demo_block 0 5000)"
    using probe_fields(2) [OF abi_ok_packed_le length_demo_block] by simp
  have seq: "get_seq packed_le (probe packed_le demo_block 0 5000) = 1"
    using probe_fields(3) [OF abi_ok_packed_le length_demo_block, of 0 5000] by simp
  have t: "get_send_time_us packed_le (probe packed_le demo_block 0 5000) = 5000"
    using probe_fields(4) [OF abi_ok_packed_le length_demo_block] .
  have lat: "clamp_lat (- 2000) = 0"
    by (simp add: clamp_lat_def)
  have digits: "dec (Suc 0) = ''1''" "dec 0 = ''0''"
    by (simp_all add: dec_digit digit_def)
  show ?thesis
    using server_logs_clamped_latency [OF abi_ok_packed_le length_demo_buffer d len]
    by (simp add: seq t now lat digits demo_state_def)
qed

subsection \<open>Round trip of the header\<close>

text \<open>
  C2 as stated fails when the two processes are built for different byte orders: neither
  program converts a field. The sample client, built little-endian, writes sequence 1 into
  its first header; a big-endian server that receives that datagram reads 16777216.
\<close>

theorem cross_endian_decode_differs:
  "get_seq packed_le (c_mem first_pass) = 1
   \<and> get_seq packed_be (s_buffer (server_body packed_be arrival_tick demo_state)) = 16777216"
proof -
  let ?d = "stamp packed_le 1 1000 demo_block"
  have recv: "s_recv arrival_tick = Datagram ?d"
    by (simp add: arrival_tick_def first_pass_sent)
  have d: "length ?d = 112"
    by (simp add: demo_block_def)
  have mem: "c_mem (client_init packed_le demo_client) = set_seq packed_le 0 demo_block"
    by (simp add: client_init_def Let_def demo_client_def demo_block_def packed_le_def)
  have "c_mem first_pass = ?d"
    by (simp add: first_pass_def client_body_mem mem first_tick_def demo_block_def)
  moreover have "get_seq packed_le ?d = 1"
    by (simp add: demo_block_def packed_le_def)
  ultimately have client: "get_seq packed_le (c_mem first_pass) = 1"
    by simp
  have big: "hdr_size packed_be \<le> buffer_size" and fits: "hdr_size packed_be \<le> length ?d"
    using abi_ok_packed_be by (simp_all add: abi_ok_def packed_be_def demo_block_def)
  have "s_buffer (server_body packed_be arrival_tick demo_state)
      = store 0 (take buffer_size ?d) (s_buffer demo_state)"
    using recv by (rule server_body_buffer)
  then have "get_seq packed_be (s_buffer (server_body packed_be arrival_tick demo_state))
      = get_seq packed_be ?d"
    using recv_header(1) [OF abi_ok_packed_be fits length_demo_buffer big] by simp
  then show ?thesis
    using client swapped_fields(1) [of demo_block] by (simp add: demo_block_def)
qed

text \<open>
  C2, amended: when client and server are built for the same byte order and the same layout
  of the header, the header a pass of the client constructs, with sequence \<open>s\<close> (the
  previous sequence plus 1) and send time \<open>t\<close> (what \<^verbatim>\<open>now_us\<close> returned), is transmitted as
  the one datagram of that pass, and the server that receives this datagram decodes from
  its buffer exactly \<open>s\<close> and \<open>t\<close> and logs the record of \<open>s\<close> and \<open>t\<close>.
\<close>

theorem client_header_decoded_by_server:
  assumes "abi_ok ca" and "abi_ok sa"
    and "big_endian sa = big_endian ca" and "time_off sa = time_off ca"
    and "hdr_size sa = hdr_size ca"
    and "length (c_mem cst) = hdr_size ca + 100" and "length (s_buffer sst) = buffer_size"
    and "get_seq ca (c_mem cst) + 1 = s" and "c_now ctk = t"
    and "s_recv stk = Datagram (last (sent (c_trace (client_body ca ctk cst))))"
  shows "get_seq ca (c_mem (client_body ca ctk cst)) = s
         \<and> get_send_time_us ca (c_mem (client_body ca ctk cst)) = t
         \<and> length (sent (c_trace (client_body ca ctk cst))) = length (sent (c_trace cst)) + 1
         \<and> take (hdr_size ca) (last (sent (c_trace (client_body ca ctk cst))))
             = take (hdr_size ca) (c_mem (client_body ca ctk cst))
         \<and> get_seq sa (s_buffer (server_body sa stk sst)) = s
         \<and> get_send_time_us sa (s_buffer (server_body sa stk sst)) = t
         \<and> s_trace (server_body sa stk sst)
             = s_trace sst @ [LogWrite (log_line s (clamp_lat (s_now stk - t)))]"
proof -
  let ?d = "stamp ca s t (c_mem cst)"
  have c: "4 \<le> time_off ca" "time_off ca + 8 \<le> length (c_mem cst)"
    using assms(1,6) by (simp_all add: abi_ok_def)
  have mem: "c_mem (client_body ca ctk cst) = ?d"
    using assms(8,9) by (simp add: client_body_mem)
  have sent: "sent (c_trace (client_body ca ctk cst)) = sent (c_trace cst) @ [?d]"
    using client_body_sent [OF assms(6), of ctk] assms(8,9) by simp
  then have recv: "s_recv stk = Datagram ?d"
    using assms(10) by simp
  have cs: "get_seq ca ?d = s" and ct: "get_send_time_us ca ?d = t"
    using c by simp_all
  have ss: "get_seq sa ?d = s" and st: "get_send_time_us sa ?d = t"
    using cs ct get_seq_same_order [OF assms(3)] get_time_same_layout [OF assms(3,4)]
    by simp_all
  have "length ?d = hdr_size ca + 100"
    using assms(6) by simp
  then have fits: "hdr_size sa \<le> length ?d"
    unfolding assms(5) by simp
  have big: "hdr_size sa \<le> buffer_size"
    using assms(2) by (simp add: abi_ok_def)
  have "s_buffer (server_body sa stk sst) = store 0 (take buffer_size ?d) (s_buffer sst)"
    using recv by (rule server_body_buffer)
  then have buf: "get_seq sa (s_buffer (server_body sa stk sst)) = s"
    "get_send_time_us sa (s_buffer (server_body sa stk sst)) = t"
    using recv_header [OF assms(2) fits assms(7) big] ss st by simp_all
  have "s_trace (server_body sa stk sst) = s_trace sst @ datagram_log sa stk"
    using assms(2,7) recv by (rule server_body_datagram)
  then have log: "s_trace (server_body sa stk sst)
      = s_trace sst @ [LogWrite (log_line s (clamp_lat (s_now stk - t)))]"
    using recv fits by (simp add: datagram_log_def record_of_def ss st)
  show ?thesis
    using mem sent cs ct buf log by simp
qed

theorem client_header_decoded_by_server_witness:
  "get_seq packed_le (s_buffer (server_body packed_le arrival_tick demo_state)) = 1
   \<and> get_send_time_us packed_le (s_buffer (server_body packed_le arrival_tick demo_state)) = 1000
   \<and> s_trace (server_body packed_le arrival_tick demo_state)
       = [LogWrite (log_line 1 (clamp_lat (1250 - 1000)))]"
proof -
  have mem: "c_mem (client_init packed_le demo_client) = set_seq packed_le 0 demo_block"
    by (simp add: client_init_def Let_def demo_client_def demo_block_def packed_le_def)
  have len: "length (c_mem (client_init packed_le demo_client)) = hdr_size packed_le + 100"
    by (simp add: mem length_demo_block)
  have seq: "get_seq packed_le (c_mem (client_init packed_le demo_client)) + 1 = 1"
    by (simp add: mem demo_block_def)
  have now: "c_now first_tick = 1000"
    by (simp add: first_tick_def)
  have recv: "s_recv arrival_tick = Datagram (last (sent (c_trace
      (client_body packed_le first_tick (client_init packed_le demo_client)))))"
    by (simp add: arrival_tick_def first_pass_def)
  have at: "s_now arrival_tick = 1250" and tr: "s_trace demo_state = []"
    by (simp_all add: arrival_tick_def demo_state_def)
  show ?thesis
    using client_header_decoded_by_server
      [OF abi_ok_packed_le abi_ok_packed_le refl refl refl len length_demo_buffer seq now recv]
    by (simp only: at tr append_Nil)
qed

subsection \<open>Lossless, in-order transport\<close>

text \<open>
  C3 as stated fails when the server is built for the other byte order: the code converts
  no field. The sample server receives, in order and without loss, exactly the two
  datagrams of the sample little-endian client, whose first carries sequence 1; built
  big-endian, it logs two lines, but with the sequences 16777216 and 33554432.
\<close>

theorem cross_endian_log_differs:
  "map s_recv (s_ticks lossless_server)
     = map Datagram (sent (effects (client_main packed_le demo_client)))
   \<and> get_seq packed_le (sent (effects (client_main packed_le demo_client)) ! 0) = 1
   \<and> log_of (effects (server_main packed_be lossless_server))
       = ''16777216 1728537831980139746'' @ [newline]
         @ ''33554432 8608066638253754916'' @ [newline]"
proof -
  let ?d1 = "stamp packed_le 1 1000 demo_block"
  let ?d2 = "stamp packed_le 2 101000 demo_block"
  have probes: "probe packed_le demo_block 0 1000 = ?d1"
    "probe packed_le demo_block (Suc 0) 101000 = ?d2"
    by (simp_all add: probe_def load_all demo_block_def packed_le_def)
  have ticks: "s_ticks lossless_server =
      [\<lparr>s_recv = Datagram ?d1, s_now = 1250, s_sig = False\<rparr>,
       \<lparr>s_recv = Datagram ?d2, s_now = 100900, s_sig = False\<rparr>]"
    by (simp add: lossless_server_def probes)
  have transport: "map s_recv (s_ticks lossless_server)
      = map Datagram (sent (effects (client_main packed_le demo_client)))"
    by (simp add: ticks demo_sent)
  have "get_seq packed_le (stamp packed_le 1 1000 demo_block) = 1"
    by (simp add: demo_block_def packed_le_def)
  then have first: "get_seq packed_le (sent (effects (client_main packed_le demo_client)) ! 0) = 1"
    by (simp add: demo_sent)
  have srv: "3 \<le> length (s_argv lossless_server)" "s_bind_ok lossless_server"
    "s_fopen_ok lossless_server" "\<not> s_early_sig lossless_server"
    by (simp_all add: lossless_server_def)
  have nofail: "\<forall>tk\<in>set (s_ticks lossless_server). s_recv tk \<noteq> RecvFail"
    by (simp add: ticks)
  have used: "upto_first s_sig (s_ticks lossless_server) = s_ticks lossless_server"
    by (simp add: ticks)
  have len: "length demo_block = 112"
    by (simp add: demo_block_def)
  have fits: "hdr_size packed_be \<le> length ?d1" "hdr_size packed_be \<le> length ?d2"
    by (simp_all add: len packed_be_def)
  have rec1: "record_of packed_be ?d1 1250
      = ''16777216 1728537831980139746'' @ [newline]"
    by (simp only: record_of_def swapped_fields [OF len] swapped_lat1 swapped_line1)
  have rec2: "record_of packed_be ?d2 100900
      = ''33554432 8608066638253754916'' @ [newline]"
    by (simp only: record_of_def swapped_fields [OF len] swapped_lat2 swapped_line2)
  have "log_of (effects (server_main packed_be lossless_server))
      = log_of (concat (map (datagram_log packed_be) (s_ticks lossless_server)))"
    using server_main_run [OF abi_ok_packed_be srv nofail] by (simp add: used)
  also have "\<dots> = record_of packed_be ?d1 1250 @ record_of packed_be ?d2 100900"
    using fits by (simp add: ticks datagram_log_def)
  finally show ?thesis
    using transport first by (simp only: rec1 rec2) simp
qed

text \<open>
  C3, amended: let client and server be built for the same byte order and the same layout
  of the header, let a client run, and let the server's \<^verbatim>\<open>recvfrom\<close> deliver exactly the
  datagrams that client transmitted, in order and with no failure, no signal stopping the
  server before the last of them. With \<open>N\<close> the number of datagrams sent, the log then
  consists of exactly \<open>N\<close> lines; line \<open>k\<close> (counted from 0) carries the sequence of the
  \<open>k\<close>-th datagram sent, which is \<open>k + 1\<close> as a 32-bit value, hence the number \<open>k + 1\<close> itself
  while \<open>N < 2 ^ 32\<close>; its latency is the clamped difference of the server's and the client's
  time.
\<close>

theorem lossless_in_order_log:
  assumes "abi_ok ca" and "abi_ok sa"
    and "big_endian sa = big_endian ca" and "time_off sa = time_off ca"
    and "hdr_size sa = hdr_size ca"
    and "4 \<le> length (c_argv cenv)" and "\<not> c_early_sig cenv"
    and "3 \<le> length (s_argv senv)" and "s_bind_ok senv" and "s_fopen_ok senv"
    and "\<not> s_early_sig senv"
    and "map s_recv (s_ticks senv) = map Datagram (sent (effects (client_main ca cenv)))"
    and "\<forall>tk\<in>set (butlast (s_ticks senv)). \<not> s_sig tk"
  shows "log_of (effects (server_main sa senv)) =
           concat (map (\<lambda>k. log_line (get_seq ca (sent (effects (client_main ca cenv)) ! k))
                               (clamp_lat (s_now (s_ticks senv ! k) - c_now (c_ticks cenv ! k))))
                     [0..<length (sent (effects (client_main ca cenv)))])
         \<and> count_lines (log_of (effects (server_main sa senv)))
             = length (sent (effects (client_main ca cenv)))
         \<and> (\<forall>k<length (sent (effects (client_main ca cenv))).
               get_seq ca (sent (effects (client_main ca cenv)) ! k) = word_of_nat (k + 1)
               \<and> (length (sent (effects (client_main ca cenv))) < 2 ^ 32 \<longrightarrow>
                    unat (get_seq ca (sent (effects (client_main ca cenv)) ! k)) = k + 1))"
proof -
  let ?blk = "fresh_block (hdr_size ca + 100) (c_junk cenv)"
  let ?P = "\<lambda>k. probe ca ?blk k (c_now (c_ticks cenv ! k))"
  let ?N = "length (upto_first c_sig (c_ticks cenv))"
  let ?sts = "s_ticks senv"
  let ?line = "\<lambda>k. log_line (word_of_nat (k + 1))
                       (clamp_lat (s_now (?sts ! k) - c_now (c_ticks cenv ! k)))"
  have blk: "length ?blk = hdr_size ca + 100"
    by simp
  have sent_eq: "sent (effects (client_main ca cenv)) = map ?P [0..<?N]"
    using assms(1,6,7) by (rule client_sent)
  have N: "length (sent (effects (client_main ca cenv))) = ?N"
    by (simp add: sent_eq)
  have lenS: "length ?sts = ?N"
    using assms(12) N by (metis length_map)
  have recv: "s_recv (?sts ! k) = Datagram (?P k)" if "k < ?N" for k
  proof -
    have "map s_recv ?sts ! k = map Datagram (map ?P [0..<?N]) ! k"
      using assms(12) by (simp only: sent_eq)
    then show ?thesis
      using that lenS by simp
  qed
  have nofail: "\<forall>tk\<in>set ?sts. s_recv tk \<noteq> RecvFail"
  proof
    fix tk assume "tk \<in> set ?sts"
    then obtain k where "k < length ?sts" and "tk = ?sts ! k"
      by (auto simp: in_set_conv_nth)
    then show "s_recv tk \<noteq> RecvFail"
      using recv [of k] lenS by simp
  qed
  have used: "upto_first s_sig ?sts = ?sts"
    using assms(13) by (rule upto_first_butlast)
  have "log_of (effects (server_main sa senv)) = concat (map (\<lambda>tk. log_of (datagram_log sa tk)) ?sts)"
    using server_main_run [OF assms(2,8-11) nofail] by (simp add: used log_of_passes)
  also have "map (\<lambda>tk. log_of (datagram_log sa tk)) ?sts
      = map (\<lambda>k. log_of (datagram_log sa (?sts ! k))) [0..<length ?sts]"
    by (rule nth_equalityI) simp_all
  also have "\<dots> = map ?line [0..<?N]"
  proof (unfold lenS, rule map_cong [OF refl])
    fix k assume "k \<in> set [0..<?N]"
    then have k: "k < ?N" by simp
    have "length (?P k) = hdr_size ca + 100"
      using probe_fields(2) [OF assms(1) blk] .
    then have fits: "hdr_size sa \<le> length (?P k)"
      unfolding assms(5) by simp
    have "log_of (datagram_log sa (?sts ! k)) = record_of sa (?P k) (s_now (?sts ! k))"
      using recv [OF k] fits by (simp add: datagram_log_def)
    also have "\<dots> = record_of ca (?P k) (s_now (?sts ! k))"
      using assms(3,4) by (rule record_of_same_layout)
    also have "\<dots> = ?line k"
      using probe_fields(3,4) [OF assms(1) blk] by (simp add: record_of_def)
    finally show "log_of (datagram_log sa (?sts ! k)) = ?line k" .
  qed
  finally have log: "log_of (effects (server_main sa senv)) = concat (map ?line [0..<?N])" .
  have seqs: "get_seq ca (sent (effects (client_main ca cenv)) ! k) = word_of_nat (k + 1)"
    if "k < ?N" for k
    using that probe_fields(3) [OF assms(1) blk] by (simp add: sent_eq)
  have small: "unat (word_of_nat (k + 1) :: 32 word) = k + 1" if "k < ?N" and "?N < 2 ^ 32" for k
  proof -
    have "unat (word_of_nat (k + 1) :: 32 word) = (k + 1) mod 2 ^ 32"
      using unat_of_nat [where 'a = 32, of "k + 1"] by simp
    then show ?thesis
      using that by simp
  qed
  have lines: "map (\<lambda>k. log_line (get_seq ca (sent (effects (client_main ca cenv)) ! k))
                               (clamp_lat (s_now (?sts ! k) - c_now (c_ticks cenv ! k))))
                 [0..<?N] = map ?line [0..<?N]"
    by (rule map_cong [OF refl]) (simp add: seqs)
  have "count_lines (concat (map ?line [0..<?N])) = ?N"
    using count_lines_records [of "\<lambda>k. word_of_nat (k + 1)" _ "[0..<?N]"] by simp
  then show ?thesis
    using log seqs small by (simp only: N lines) simp
qed

theorem lossless_in_order_log_witness:
  "log_of (effects (server_main packed_le lossless_server))
     = ''1 250'' @ [newline] @ ''2 0'' @ [newline]
   \<and> count_lines (log_of (effects (server_main packed_le lossless_server))) = 2"
proof -
  let ?P0 = "probe packed_le demo_block 0 1000"
  let ?P1 = "probe packed_le demo_block 1 101000"
  have argc: "4 \<le> length (c_argv demo_client)" and early: "\<not> c_early_sig demo_client"
    by (simp_all add: demo_client_def)
  have srv: "3 \<le> length (s_argv lossless_server)" "s_bind_ok lossless_server"
    "s_fopen_ok lossless_server" "\<not> s_early_sig lossless_server"
    by (simp_all add: lossless_server_def)
  have blk: "fresh_block (hdr_size packed_le + 100) (c_junk demo_client) = demo_block"
    by (simp add: demo_block_def packed_le_def demo_client_def)
  have "upto_first c_sig (c_ticks demo_client) =
      [\<lparr>c_now = 1000, c_sig = False\<rparr>, \<lparr>c_now = 101000, c_sig = True\<rparr>]"
    by (simp add: demo_client_def)
  then have "sent (effects (client_main packed_le demo_client)) =
      [probe packed_le demo_block 0 (c_now (c_ticks demo_client ! 0)),
       probe packed_le demo_block 1 (c_now (c_ticks demo_client ! 1))]"
    using client_sent [OF abi_ok_packed_le argc early] by (simp add: blk upt_rec)
  then have sent2: "sent (effects (client_main packed_le demo_client)) = [?P0, ?P1]"
    by (simp add: demo_client_def)
  have transport: "map s_recv (s_ticks lossless_server)
      = map Datagram (sent (effects (client_main packed_le demo_client)))"
    by (simp add: sent2 lossless_server_def)
  have quiet: "\<forall>tk\<in>set (butlast (s_ticks lossless_server)). \<not> s_sig tk"
    by (simp add: lossless_server_def)
  note run = lossless_in_order_log [OF abi_ok_packed_le abi_ok_packed_le refl refl refl argc early srv transport quiet]
  have log: "log_of (effects (server_main packed_le lossless_server)) =
      concat (map (\<lambda>k. log_line (get_seq packed_le ([?P0, ?P1] ! k))
                          (clamp_lat (s_now (s_ticks lossless_server ! k)
                                      - c_now (c_ticks demo_client ! k))))
                [0..<length [?P0, ?P1]])"
    and cnt: "count_lines (log_of (effects (server_main packed_le lossless_server)))
      = length [?P0, ?P1]"
    using run unfolding sent2 by blast+
  have seq0: "get_seq packed_le ?P0 = 1"
    using probe_fields(3) [OF abi_ok_packed_le length_demo_block, of 0 1000] by simp
  have seq1: "get_seq packed_le ?P1 = 2"
    using probe_fields(3) [OF abi_ok_packed_le length_demo_block, of 1 101000] by simp
  have "dec 250 = ''250''" and "dec 1 = ''1''" and "dec 2 = ''2''" and "dec 0 = ''0''"
    by (simp_all add: dec.simps [of 250] dec.simps [of 25] dec_digit digit_def)
  then have l0: "log_line 1 (clamp_lat 250) = ''1 250'' @ [newline]"
    and l1: "log_line 2 (clamp_lat (- 100)) = ''2 0'' @ [newline]"
    by (simp_all add: log_line_def sdec_def clamp_lat_def)
  have f0: "log_line (get_seq packed_le ([?P0, ?P1] ! 0))
               (clamp_lat (s_now (s_ticks lossless_server ! 0) - c_now (c_ticks demo_client ! 0)))
             = ''1 250'' @ [newline]"
    by (simp add: seq0 l0 lossless_server_def demo_client_def)
  have f1: "log_line (get_seq packed_le ([?P0, ?P1] ! Suc 0))
               (clamp_lat (s_now (s_ticks lossless_server ! Suc 0)
                           - c_now (c_ticks demo_client ! Suc 0)))
             = ''2 0'' @ [newline]"
    using seq1 by (simp add: l1 lossless_server_def demo_client_def)
  have idx: "[0..<length [?P0, ?P1]] = [0, Suc 0]"
    by (simp add: upt_rec)
  have "log_of (effects (server_main packed_le lossless_server))
      = (''1 250'' @ [newline]) @ (''2 0'' @ [newline]) @ []"
    using log unfolding idx by (simp only: list.map concat.simps f0 f1)
  then show ?thesis
    using cnt by simp
qed

subsection \<open>Datagram size and byte order\<close>

text \<open>
  C4 as stated fails: the code converts no header field to network byte order. On a
  little-endian build the first datagram of the sample client carries its sequence 1 as
  the bytes 01 00 00 00, where network byte order is 00 00 00 01.
\<close>

theorem wire_not_network_order:
  "load 0 4 (hd (sent (effects (client_main packed_le demo_client)))) = [1, 0, 0, 0]
   \<and> network_bytes 4 (get_seq packed_le (hd (sent (effects (client_main packed_le demo_client)))))
       = [0, 0, 0, 1]
   \<and> load 0 4 (hd (sent (effects (client_main packed_le demo_client))))
       \<noteq> network_bytes 4 (get_seq packed_le (hd (sent (effects (client_main packed_le demo_client)))))"
proof -
  have argc: "4 \<le> length (c_argv demo_client)" and early: "\<not> c_early_sig demo_client"
    by (simp_all add: demo_client_def)
  have blk: "fresh_block (hdr_size packed_le + 100) (c_junk demo_client) = demo_block"
    by (simp add: demo_block_def packed_le_def demo_client_def)
  have "upto_first c_sig (c_ticks demo_client) =
      [\<lparr>c_now = 1000, c_sig = False\<rparr>, \<lparr>c_now = 101000, c_sig = True\<rparr>]"
    by (simp add: demo_client_def)
  then have "hd (sent (effects (client_main packed_le demo_client)))
      = probe packed_le demo_block 0 (c_now (c_ticks demo_client ! 0))"
    using client_sent [OF abi_ok_packed_le argc early] by (simp add: blk upt_rec)
  then have first: "hd (sent (effects (client_main packed_le demo_client)))
      = stamp packed_le 1 1000 demo_block"
    using probe_fields(1) [OF abi_ok_packed_le length_demo_block, of 0]
    by (simp add: demo_client_def)
  have mem: "4 \<le> time_off packed_le" "time_off packed_le + 8 \<le> length demo_block"
    by (simp_all add: demo_block_def packed_le_def)
  have wire: "load 0 4 (stamp packed_le 1 1000 demo_block) = [1, 0, 0, 0]"
    using load_seq_stamp [OF mem, of 1 1000]
    by (simp add: word_bytes_def packed_le_def le_bytes4_one)
  have net: "network_bytes 4 (get_seq packed_le (stamp packed_le 1 1000 demo_block)) = [0, 0, 0, 1]"
    using mem by (simp add: network_bytes_def le_bytes4_one)
  show ?thesis
    by (simp add: first wire net)
qed

text \<open>
  C4, amended: datagram \<open>k\<close> (counted from 0) of those the client transmits is exactly
  \<open>hdr_size + 100\<close> bytes long. Its first four bytes are the sequence \<open>k + 1\<close> and the eight
  bytes at the offset of \<^verbatim>\<open>send_time_us\<close> are the value \<^verbatim>\<open>now_us\<close> returned in that pass, both
  in the byte order of the sending host, unconverted: network byte order on a big-endian
  host, the reverse of it on a little-endian host. A server built for the same byte order
  and header layout that receives the datagram logs the record of that sequence and time.
\<close>

theorem host_order_wire_format:
  assumes "abi_ok a" and "k < length (sent (effects (client_main a env)))"
  shows "length (sent (effects (client_main a env)) ! k) = hdr_size a + 100
         \<and> load 0 4 (sent (effects (client_main a env)) ! k)
             = (if big_endian a then network_bytes 4 (word_of_nat (k + 1) :: 32 word)
                else rev (network_bytes 4 (word_of_nat (k + 1) :: 32 word)))
         \<and> load (time_off a) 8 (sent (effects (client_main a env)) ! k)
             = (if big_endian a then network_bytes 8 (c_now (c_ticks env ! k))
                else rev (network_bytes 8 (c_now (c_ticks env ! k))))
         \<and> (\<forall>sa stk sst.
               abi_ok sa \<and> big_endian sa = big_endian a \<and> time_off sa = time_off a
               \<and> hdr_size sa = hdr_size a \<and> length (s_buffer sst) = buffer_size
               \<and> s_recv stk = Datagram (sent (effects (client_main a env)) ! k)
               \<longrightarrow> s_trace (server_body sa stk sst)
                     = s_trace sst @
                       [LogWrite (log_line (word_of_nat (k + 1))
                                    (clamp_lat (s_now stk - c_now (c_ticks env ! k))))])"
proof -
  let ?blk = "fresh_block (hdr_size a + 100) (c_junk env)"
  let ?d = "stamp a (word_of_nat (k + 1)) (c_now (c_ticks env ! k)) ?blk"
  have d: "sent (effects (client_main a env)) ! k = ?d"
    using assms by (rule client_sent_nth)
  have b: "4 \<le> time_off a" "time_off a + 8 \<le> length ?blk"
    using assms(1) by (simp_all add: abi_ok_def)
  have len: "length ?d = hdr_size a + 100"
    by simp
  have seq: "load 0 4 ?d = word_bytes a 4 (word_of_nat (k + 1) :: 32 word)"
    using b by (rule load_seq_stamp)
  have time: "load (time_off a) 8 ?d = word_bytes a 8 (c_now (c_ticks env ! k))"
    using b(2) by (rule load_time_stamp)
  have server: "s_trace (server_body sa stk sst)
      = s_trace sst @ [LogWrite (log_line (word_of_nat (k + 1))
                                   (clamp_lat (s_now stk - c_now (c_ticks env ! k))))]"
    if ok: "abi_ok sa" and order: "big_endian sa = big_endian a"
      and off: "time_off sa = time_off a" and size: "hdr_size sa = hdr_size a"
      and buf: "length (s_buffer sst) = buffer_size" and recv: "s_recv stk = Datagram ?d"
    for sa stk sst
  proof -
    have fits: "hdr_size sa \<le> length ?d"
      unfolding size by simp
    have "s_trace (server_body sa stk sst) = s_trace sst @ datagram_log sa stk"
      using ok buf recv by (rule server_body_datagram)
    also have "datagram_log sa stk = [LogWrite (record_of sa ?d (s_now stk))]"
      using recv fits by (simp add: datagram_log_def)
    also have "record_of sa ?d (s_now stk) = record_of a ?d (s_now stk)"
      using order off by (rule record_of_same_layout)
    also have "\<dots> = log_line (word_of_nat (k + 1)) (clamp_lat (s_now stk - c_now (c_ticks env ! k)))"
      using b by (simp add: record_of_def)
    finally show ?thesis .
  qed
  have wire: "length ?d = hdr_size a + 100
      \<and> load 0 4 ?d = (if big_endian a then network_bytes 4 (word_of_nat (k + 1) :: 32 word)
                        else rev (network_bytes 4 (word_of_nat (k + 1) :: 32 word)))
      \<and> load (time_off a) 8 ?d = (if big_endian a then network_bytes 8 (c_now (c_ticks env ! k))
                        else rev (network_bytes 8 (c_now (c_ticks env ! k))))"
    using len seq time by (simp add: word_bytes_def network_bytes_def)
  show ?thesis
    unfolding d using wire server by blast
qed

theorem host_order_wire_format_witness:
  "length (sent (effects (client_main packed_le demo_client)) ! 0) = 112
   \<and> load 0 4 (sent (effects (client_main packed_le demo_client)) ! 0) = [1, 0, 0, 0]
   \<and> load 4 8 (sent (effects (client_main packed_le demo_client)) ! 0)
       = [232, 3, 0, 0, 0, 0, 0, 0]
   \<and> s_trace (server_body packed_le wire_tick demo_state)
       = [LogWrite (log_line 1 (clamp_lat (1250 - 1000)))]"
proof -
  have k: "0 < length (sent (effects (client_main packed_le demo_client)))"
    by (simp add: demo_sent)
  have recv: "s_recv wire_tick = Datagram (sent (effects (client_main packed_le demo_client)) ! 0)"
    and now: "s_now wire_tick = 1250"
    by (simp_all add: wire_tick_def)
  have tr: "s_trace demo_state = []"
    by (simp add: demo_state_def)
  have t0: "c_now (c_ticks demo_client ! 0) = 1000"
    by (simp add: demo_client_def)
  have vals: "hdr_size packed_le + 100 = 112" "time_off packed_le = 4"
    "big_endian packed_le = False"
    by (simp_all add: packed_le_def)
  have bytes: "rev (network_bytes 4 (word_of_nat (0 + 1) :: 32 word)) = [1, 0, 0, 0]"
    "rev (network_bytes 8 (1000 :: 64 word)) = [232, 3, 0, 0, 0, 0, 0, 0]"
    by (simp_all add: network_bytes_def le_bytes4_one le_bytes8_1000)
  note w = host_order_wire_format [OF abi_ok_packed_le k]
  have "s_trace (server_body packed_le wire_tick demo_state)
      = s_trace demo_state @
        [LogWrite (log_line (word_of_nat (0 + 1))
                     (clamp_lat (s_now wire_tick - c_now (c_ticks demo_client ! 0))))]"
    using w abi_ok_packed_le length_demo_buffer recv by blast
  then have server: "s_trace (server_body packed_le wire_tick demo_state)
      = [LogWrite (log_line 1 (clamp_lat (1250 - 1000)))]"
    by (simp add: tr now t0)
  have "length (sent (effects (client_main packed_le demo_client)) ! 0) = hdr_size packed_le + 100"
    and "load 0 4 (sent (effects (client_main packed_le demo_client)) ! 0)
      = (if big_endian packed_le then network_bytes 4 (word_of_nat (0 + 1) :: 32 word)
         else rev (network_bytes 4 (word_of_nat (0 + 1) :: 32 word)))"
    and "load (time_off packed_le) 8 (sent (effects (client_main packed_le demo_client)) ! 0)
      = (if big_endian packed_le then network_bytes 8 (c_now (c_ticks demo_client ! 0))
         else rev (network_bytes 8 (c_now (c_ticks demo_client ! 0))))"
    using w by blast+
  then show ?thesis
    using server by (simp only: vals t0 bytes if_False)
qed

subsection \<open>Short datagrams\<close>

text \<open>
  C5: for a received datagram shorter than the header the pass leaves the trace of effects
  as it was: nothing is written to the log and nothing to standard error. Only a signal can
  clear \<^verbatim>\<open>run\<close>, and the loop goes on with the next input.
\<close>
theorem short_datagram_dropped:
  assumes "abi_ok a" and "s_recv tk = Datagram d" and "length d < hdr_size a"
  shows "s_trace (server_body a tk st) = s_trace st
         \<and> s_run (server_body a tk st) = (if s_sig tk then 0 else s_run st)
         \<and> (s_run st \<noteq> 0 \<longrightarrow>
              server_loop a st (tk # rest) = server_loop a (server_body a tk st) rest)"
proof -
  have "hdr_size a \<le> buffer_size"
    using assms(1) by (simp add: abi_ok_def)
  then have cut: "min (length d) buffer_size = length d"
    using assms(3) by simp
  have "length d < 2 ^ 64"
    using assms(3) \<open>hdr_size a \<le> buffer_size\<close> by (simp add: buffer_size_def)
  then have "to_size_t (int (length d)) = length d"
    by (rule to_size_t_nat)
  then have "s_trace (server_body a tk st) = s_trace st"
    using assms(2,3) cut
    by (simp add: server_body_def Let_def server_handle_sig_def)
  then show ?thesis
    by (simp add: server_body_run)
qed

theorem short_datagram_dropped_witness:
  "s_trace (server_body packed_le short_tick demo_state) = []
   \<and> s_run (server_body packed_le short_tick demo_state) = 1
   \<and> server_loop packed_le demo_state [short_tick] = Pending (server_body packed_le short_tick demo_state)"
proof -
  have d: "s_recv short_tick = Datagram [1, 2, 3, 4]"
    by (simp add: short_tick_def)
  have len: "length [1, 2, 3, 4 :: byte] < hdr_size packed_le"
    by (simp add: packed_le_def)
  have run: "s_run demo_state \<noteq> 0" and sg: "\<not> s_sig short_tick"
    by (simp_all add: demo_state_def short_tick_def)
  show ?thesis
    using short_datagram_dropped [OF abi_ok_packed_le d len, of demo_state "[]"] run sg
    by (simp add: demo_state_def)
qed

subsection \<open>The sequence counter and the cadence\<close>

text \<open>
  C6: the client's sequence counter is an unsigned 32-bit value: pass \<open>k\<close> (counted from 0)
  sends sequence \<open>k + 1\<close> modulo \<open>2 ^ 32\<close>, so the first packet carries 1, each later one
  the previous value plus 1, with wrap-around and no reset. Each pass stamps the time
  \<^verbatim>\<open>now_us\<close> returned, sends the header and payload, \<open>hdr_size + 100\<close> bytes in all, and then
  sleeps 100000 microseconds. The passes are those up to the first one a signal arrives in.
\<close>

theorem client_sequence_and_cadence:
  assumes "abi_ok a" and "4 \<le> length (c_argv env)" and "\<not> c_early_sig env"
  shows "effects (client_main a env) =
           Socket #
           concat (map (\<lambda>k. [Sendto (probe a (fresh_block (hdr_size a + 100) (c_junk env)) k
                                       (c_now (c_ticks env ! k))), Usleep 100000])
                     [0..<length (upto_first c_sig (c_ticks env))])
           @ (if list_ex c_sig (c_ticks env) then [Free, Close] else [])
         \<and> (\<forall>k t. length (probe a (fresh_block (hdr_size a + 100) (c_junk env)) k t)
                     = hdr_size a + 100
                 \<and> get_seq a (probe a (fresh_block (hdr_size a + 100) (c_junk env)) k t)
                     = word_of_nat (k + 1)
                 \<and> unat (get_seq a (probe a (fresh_block (hdr_size a + 100) (c_junk env)) k t))
                     = (k + 1) mod 2 ^ 32
                 \<and> get_send_time_us a (probe a (fresh_block (hdr_size a + 100) (c_junk env)) k t)
                     = t)"
proof -
  have len: "length (fresh_block (hdr_size a + 100) (c_junk env)) = hdr_size a + 100"
    by simp
  have "unat (word_of_nat (k + 1) :: 32 word) = (k + 1) mod 2 ^ 32" for k
    using unat_of_nat [where 'a = 32, of "k + 1"] by simp
  then show ?thesis
    using probe_fields [OF assms(1) len] client_main_run [OF assms] by simp
qed

theorem client_sequence_and_cadence_witness:
  "effects (client_main packed_le demo_client) =
     [Socket,
      Sendto (probe packed_le (fresh_block 112 zero_junk) 0 1000), Usleep 100000,
      Sendto (probe packed_le (fresh_block 112 zero_junk) 1 101000), Usleep 100000,
      Free, Close]
   \<and> unat (get_seq packed_le (probe packed_le (fresh_block 112 zero_junk) 4294967295 0)) = 0"
proof -
  have ok: "abi_ok packed_le"
    by (simp add: abi_ok_def packed_le_def buffer_size_def)
  have argc: "4 \<le> length (c_argv demo_client)" and early: "\<not> c_early_sig demo_client"
    by (simp_all add: demo_client_def)
  show ?thesis
    using client_sequence_and_cadence [OF ok argc early]
    by (simp add: demo_client_def packed_le_def upt_rec)
qed

subsection \<open>Fatal start-up\<close>

text \<open>
  C7: with fewer than 3 arguments after the program name the client, and with fewer than 2
  the server, writes its usage line to standard error and returns 1, doing nothing else.
  When \<^verbatim>\<open>bind\<close> fails, or \<^verbatim>\<open>fopen\<close> of the log fails, the server writes the \<^verbatim>\<open>perror\<close> line
  and returns 1; the failed call was made once. Once start-up has succeeded, a \<^verbatim>\<open>main\<close> that
  returns returns 0.
\<close>

theorem fatal_startup:
  "(length (c_argv cenv) < 4 \<longrightarrow>
      client_main a cenv =
        \<lparr>exit_status = Some 1, effects = [Stderr (client_usage (c_argv cenv))]\<rparr>)
   \<and> (length (s_argv senv) < 3 \<longrightarrow>
      server_main a senv =
        \<lparr>exit_status = Some 1, effects = [Stderr (server_usage (s_argv senv))]\<rparr>)
   \<and> (3 \<le> length (s_argv senv) \<and> \<not> s_bind_ok senv \<longrightarrow>
      server_main a senv =
        \<lparr>exit_status = Some 1,
         effects = [Socket, Bind, Stderr (''bind failed: '' @ s_errmsg senv @ [newline])]\<rparr>)
   \<and> (3 \<le> length (s_argv senv) \<and> s_bind_ok senv \<and> \<not> s_fopen_ok senv \<longrightarrow>
      server_main a senv =
        \<lparr>exit_status = Some 1,
         effects = [Socket, Bind, Fopen, Stderr (''recv.log: '' @ s_errmsg senv @ [newline])]\<rparr>)
   \<and> (4 \<le> length (c_argv cenv) \<longrightarrow>
      exit_status (client_main a cenv) = None \<or> exit_status (client_main a cenv) = Some 0)
   \<and> (3 \<le> length (s_argv senv) \<and> s_bind_ok senv \<and> s_fopen_ok senv \<longrightarrow>
      exit_status (server_main a senv) = None \<or> exit_status (server_main a senv) = Some 0)"
proof -
  have c_bad: "client_main a cenv =
      \<lparr>exit_status = Some 1, effects = [Stderr (client_usage (c_argv cenv))]\<rparr>"
    if "length (c_argv cenv) < 4"
    using that by (simp add: client_main_def)
  have s_bad: "server_main a senv =
      \<lparr>exit_status = Some 1, effects = [Stderr (server_usage (s_argv senv))]\<rparr>"
    if "length (s_argv senv) < 3"
    using that by (simp add: server_main_def)
  have s_bind: "server_main a senv =
      \<lparr>exit_status = Some 1,
       effects = [Socket, Bind, Stderr (''bind failed: '' @ s_errmsg senv @ [newline])]\<rparr>"
    if "3 \<le> length (s_argv senv)" and "\<not> s_bind_ok senv"
    using that by (simp add: server_main_def perror_def)
  have s_open: "server_main a senv =
      \<lparr>exit_status = Some 1,
       effects = [Socket, Bind, Fopen, Stderr (''recv.log: '' @ s_errmsg senv @ [newline])]\<rparr>"
    if "3 \<le> length (s_argv senv)" and "s_bind_ok senv" and "\<not> s_fopen_ok senv"
    using that by (simp add: server_main_def perror_def)
  have c_run: "exit_status (client_main a cenv) = None \<or> exit_status (client_main a cenv) = Some 0"
    if "4 \<le> length (c_argv cenv)"
    using that client_loop_status [OF refl, of a "client_init a cenv" "c_ticks cenv"]
    by (simp add: client_main_def)
  have s_run: "exit_status (server_main a senv) = None \<or> exit_status (server_main a senv) = Some 0"
    if "3 \<le> length (s_argv senv)" and "s_bind_ok senv" and "s_fopen_ok senv"
    using that server_loop_status [OF refl, of a "server_init senv" "s_ticks senv"]
    by (simp add: server_main_def)
  show ?thesis
    using c_bad s_bad s_bind s_open c_run s_run by blast
qed

theorem fatal_startup_witness:
  "client_main packed_le no_args_client =
     \<lparr>exit_status = Some 1,
      effects = [Stderr (''Usage: client <ip> <port> <id>'' @ [newline])]\<rparr>
   \<and> server_main packed_le no_args_server =
     \<lparr>exit_status = Some 1, effects = [Stderr (''Usage: server <ip> <port>'' @ [newline])]\<rparr>
   \<and> server_main packed_le no_bind_server =
     \<lparr>exit_status = Some 1,
      effects = [Socket, Bind, Stderr (''bind failed: Address already in use'' @ [newline])]\<rparr>
   \<and> server_main packed_le no_log_server =
     \<lparr>exit_status = Some 1,
      effects = [Socket, Bind, Fopen, Stderr (''recv.log: Permission denied'' @ [newline])]\<rparr>
   \<and> exit_status (client_main packed_le demo_client) = Some 0
   \<and> exit_status (server_main packed_le demo_server) = Some 0"
proof -
  have "exit_status (client_main packed_le demo_client) = Some 0"
    using client_main_run [OF abi_ok_packed_le, of demo_client] by (simp add: demo_client_def)
  moreover have "exit_status (server_main packed_le demo_server) = Some 0"
    by (simp add: server_main_def demo_server_def server_init_def server_handle_sig_def)
  ultimately show ?thesis
    using fatal_startup [of no_args_client packed_le no_args_server]
      fatal_startup [of demo_client packed_le no_bind_server]
      fatal_startup [of demo_client packed_le no_log_server]
      fatal_startup [of demo_client packed_le demo_server]
    by (simp add: no_args_client_def no_args_server_def no_bind_server_def no_log_server_def
        demo_client_def demo_server_def client_usage_def server_usage_def argv0_def)
qed

subsection \<open>Cooperative shutdown of the client\<close>

text \<open>
  C8: a client whose \<^verbatim>\<open>run\<close> flag is 0 when the loop condition reads it leaves the loop at
  once, whatever inputs remain, with no further effect. \<^verbatim>\<open>main\<close> then frees the packet buffer,
  closes the socket and returns 0: when the signal comes before the first pass nothing is
  sent at all, and when it comes in the pass after \<open>pre\<close> the packets of \<open>pre\<close> and of that
  pass are the only ones sent, none for the inputs \<open>post\<close>.
\<close>

theorem client_cooperative_shutdown:
  "(c_run st = 0 \<longrightarrow> client_loop a st ticks = Exited st)
   \<and> (4 \<le> length (c_argv env) \<and> c_early_sig env \<longrightarrow>
        client_main a env = \<lparr>exit_status = Some 0, effects = [Socket, Free, Close]\<rparr>)
   \<and> (abi_ok a \<and> 4 \<le> length (c_argv env) \<and> \<not> c_early_sig env
        \<and> c_ticks env = pre @ tk # post \<and> (\<forall>x\<in>set pre. \<not> c_sig x) \<and> c_sig tk \<longrightarrow>
        client_main a env =
          \<lparr>exit_status = Some 0,
           effects = Socket #
             concat (map (\<lambda>k. [Sendto (probe a (fresh_block (hdr_size a + 100) (c_junk env)) k
                                         (c_now ((pre @ [tk]) ! k))), Usleep 100000])
                       [0..<length pre + 1])
             @ [Free, Close]\<rparr>
        \<and> length (sent (effects (client_main a env))) = length pre + 1)"
proof -
  have early: "client_main a env = \<lparr>exit_status = Some 0, effects = [Socket, Free, Close]\<rparr>"
    if "4 \<le> length (c_argv env)" and "c_early_sig env"
  proof -
    have "c_run (client_init a env) = 0" and "c_trace (client_init a env) = [Socket]"
      using that(2) by (simp_all add: client_init_def Let_def client_handle_sig_def)
    then show ?thesis
      using that(1) by (simp add: client_main_def client_loop_stopped)
  qed
  have late: "client_main a env =
          \<lparr>exit_status = Some 0,
           effects = Socket #
             concat (map (\<lambda>k. [Sendto (probe a (fresh_block (hdr_size a + 100) (c_junk env)) k
                                         (c_now ((pre @ [tk]) ! k))), Usleep 100000])
                       [0..<length pre + 1])
             @ [Free, Close]\<rparr>
        \<and> length (sent (effects (client_main a env))) = length pre + 1"
    if ok: "abi_ok a" and argc: "4 \<le> length (c_argv env)" and ne: "\<not> c_early_sig env"
      and ticks: "c_ticks env = pre @ tk # post" and quiet: "\<forall>x\<in>set pre. \<not> c_sig x"
      and sg: "c_sig tk"
  proof -
    have used: "upto_first c_sig (pre @ tk # post) = pre @ [tk]"
      using quiet sg by (simp add: upto_first_split)
    have ex: "list_ex c_sig (pre @ tk # post)"
      using sg by (simp add: list_ex_split)
    have len: "length (pre @ [tk]) = length pre + 1"
      by simp
    have eq: "map (\<lambda>k. [Sendto (probe a (fresh_block (hdr_size a + 100) (c_junk env)) k
                                (c_now ((pre @ tk # post) ! k))), Usleep 100000])
            [0..<length pre + 1]
        = map (\<lambda>k. [Sendto (probe a (fresh_block (hdr_size a + 100) (c_junk env)) k
                                (c_now ((pre @ [tk]) ! k))), Usleep 100000])
            [0..<length pre + 1]"
      by (rule map_cong) (auto simp: nth_append)
    have run: "client_main a env =
          \<lparr>exit_status = Some 0,
           effects = Socket #
             concat (map (\<lambda>k. [Sendto (probe a (fresh_block (hdr_size a + 100) (c_junk env)) k
                                         (c_now ((pre @ tk # post) ! k))), Usleep 100000])
                       [0..<length pre + 1])
             @ [Free, Close]\<rparr>"
      using client_main_run [OF ok argc ne] by (simp only: ticks used ex if_True len)
    have main: "client_main a env =
          \<lparr>exit_status = Some 0,
           effects = Socket #
             concat (map (\<lambda>k. [Sendto (probe a (fresh_block (hdr_size a + 100) (c_junk env)) k
                                         (c_now ((pre @ [tk]) ! k))), Usleep 100000])
                       [0..<length pre + 1])
             @ [Free, Close]\<rparr>"
      using run by (simp only: eq)
    then show ?thesis
      by simp
  qed
  show ?thesis
    using early late client_loop_stopped [of st a ticks] by blast
qed

theorem client_cooperative_shutdown_witness:
  "client_loop packed_le stopped_client (c_ticks demo_client) = Exited stopped_client
   \<and> client_main packed_le early_client = \<lparr>exit_status = Some 0, effects = [Socket, Free, Close]\<rparr>
   \<and> client_main packed_le demo_client =
       \<lparr>exit_status = Some 0,
        effects = [Socket,
                   Sendto (probe packed_le demo_block 0 1000), Usleep 100000,
                   Sendto (probe packed_le demo_block 1 101000), Usleep 100000,
                   Free, Close]\<rparr>
   \<and> length (sent (effects (client_main packed_le demo_client))) = 2"
proof -
  have stopped: "c_run stopped_client = 0"
    by (simp add: stopped_client_def)
  have early: "4 \<le> length (c_argv early_client) \<and> c_early_sig early_client"
    by (simp add: early_client_def demo_client_def)
  have late: "abi_ok packed_le \<and> 4 \<le> length (c_argv demo_client) \<and> \<not> c_early_sig demo_client
      \<and> c_ticks demo_client = [\<lparr>c_now = 1000, c_sig = False\<rparr>] @ \<lparr>c_now = 101000, c_sig = True\<rparr>
            # [\<lparr>c_now = 201000, c_sig = False\<rparr>]
      \<and> (\<forall>x\<in>set [\<lparr>c_now = 1000, c_sig = False\<rparr>]. \<not> c_sig x)
      \<and> c_sig \<lparr>c_now = 101000, c_sig = True\<rparr>"
    using abi_ok_packed_le by (simp add: demo_client_def)
  have blk: "fresh_block (hdr_size packed_le + 100) (c_junk demo_client) = demo_block"
    by (simp add: demo_block_def packed_le_def demo_client_def)
  have upt: "[0..<length [\<lparr>c_now = 1000 :: 64 word, c_sig = False\<rparr>] + 1] = [0, 1]"
    by (simp add: upt_rec)
  from client_cooperative_shutdown
    [of stopped_client packed_le "c_ticks demo_client" early_client
      "[\<lparr>c_now = 1000, c_sig = False\<rparr>]" "\<lparr>c_now = 101000, c_sig = True\<rparr>"
      "[\<lparr>c_now = 201000, c_sig = False\<rparr>]"]
  have a: "client_loop packed_le stopped_client (c_ticks demo_client) = Exited stopped_client"
    and b: "client_main packed_le early_client = \<lparr>exit_status = Some 0, effects = [Socket, Free, Close]\<rparr>"
    using stopped early by blast+
  from client_cooperative_shutdown
    [of stopped_client packed_le "c_ticks demo_client" demo_client
      "[\<lparr>c_now = 1000, c_sig = False\<rparr>]" "\<lparr>c_now = 101000, c_sig = True\<rparr>"
      "[\<lparr>c_now = 201000, c_sig = False\<rparr>]"] late
  have c: "client_main packed_le demo_client =
          \<lparr>exit_status = Some 0,
           effects = Socket #
             concat (map (\<lambda>k. [Sendto (probe packed_le (fresh_block (hdr_size packed_le + 100) (c_junk demo_client)) k
                                         (c_now (([\<lparr>c_now = 1000, c_sig = False\<rparr>] @ [\<lparr>c_now = 101000, c_sig = True\<rparr>]) ! k))), Usleep 100000])
                       [0..<length [\<lparr>c_now = 1000 :: 64 word, c_sig = False\<rparr>] + 1])
             @ [Free, Close]\<rparr>"
    and d: "length (sent (effects (client_main packed_le demo_client))) = length [\<lparr>c_now = 1000 :: 64 word, c_sig = False\<rparr>] + 1"
    by blast+
  show ?thesis
    using a b c d by (simp add: blk upt)
qed

subsection \<open>A failed receive\<close>

text \<open>
  C9 fails on the code. In \<^verbatim>\<open>n >= sizeof(stgen_hdr_t)\<close> the \<^verbatim>\<open>int n\<close> is converted to the
  unsigned \<^verbatim>\<open>size_t\<close>, so the -1 of a failed \<^verbatim>\<open>recvfrom\<close> passes the check and the server logs
  a record of whatever its buffer holds. Here a probe with sequence 1 is received and
  logged, the next \<^verbatim>\<open>recvfrom\<close> fails, and the log gets a second line for sequence 1.
\<close>

theorem failed_receive_logs_stale_header:
  "log_of (effects (server_main packed_le failing_server))
     = ''1 500'' @ [newline] @ ''1 1000'' @ [newline]"
proof -
  let ?d = "probe packed_le demo_block 0 1000"
  let ?tk1 = "\<lparr>s_recv = Datagram ?d, s_now = 1500, s_sig = False\<rparr>"
  let ?tk2 = "\<lparr>s_recv = RecvFail, s_now = 2000, s_sig = True\<rparr>"
  let ?st0 = "server_init failing_server"
  let ?st1 = "server_body packed_le ?tk1 ?st0"
  let ?st2 = "server_body packed_le ?tk2 ?st1"
  have st0: "s_run ?st0 = 1" "length (s_buffer ?st0) = buffer_size"
    "s_trace ?st0 = [Socket, Bind, Fopen]"
    by (simp_all add: server_init_def failing_server_def Let_def)
  have big: "hdr_size packed_le \<le> buffer_size"
    using abi_ok_packed_le by (simp add: abi_ok_def)
  have len: "hdr_size packed_le \<le> length ?d"
    using probe_fields(2) [OF abi_ok_packed_le length_demo_block] by simp
  have seq: "get_seq packed_le ?d = 1"
    using probe_fields(3) [OF abi_ok_packed_le length_demo_block, of 0 1000] by simp
  have t: "get_send_time_us packed_le ?d = 1000"
    using probe_fields(4) [OF abi_ok_packed_le length_demo_block] .
  have "s_buffer ?st1 = store 0 (take buffer_size ?d) (s_buffer ?st0)"
    by (simp add: server_body_buffer)
  then have stale: "record_of packed_le (s_buffer ?st1) now = record_of packed_le ?d now" for now
    using recv_header [OF abi_ok_packed_le len st0(2) big] by (simp add: record_of_def)
  have rec1: "record_of packed_le ?d 1500 = log_line 1 500"
    and rec2: "record_of packed_le ?d 2000 = log_line 1 1000"
    by (simp_all add: record_of_def seq t clamp_lat_def)
  have tr1: "s_trace ?st1 = [Socket, Bind, Fopen, LogWrite (log_line 1 500)]"
    using server_body_datagram [OF abi_ok_packed_le st0(2), of ?tk1 ?d] len
    by (simp add: st0 datagram_log_def rec1)
  have tr2: "s_trace ?st2 = [Socket, Bind, Fopen, LogWrite (log_line 1 500), LogWrite (log_line 1 1000)]"
    using server_body_recvfail [OF abi_ok_packed_le, of ?tk2 ?st1]
    by (simp add: tr1 stale rec2)
  have run: "s_run ?st1 \<noteq> 0" "s_run ?st2 = 0"
    by (simp_all add: server_body_run st0)
  have "server_loop packed_le ?st0 [?tk1, ?tk2] = Exited ?st2"
    using run st0(1) by simp
  then have "effects (server_main packed_le failing_server) = s_trace ?st2 @ [Fclose, Close]"
    by (simp add: server_main_def failing_server_def)
  moreover have "dec 500 = ''500''" and "dec 1000 = ''1000''" and "dec 1 = ''1''"
    by (simp_all add: dec.simps [of 1000] dec.simps [of 100] dec.simps [of 500]
        dec.simps [of 50] dec.simps [of 10] dec_digit digit_def)
  then have "log_line 1 500 = ''1 500'' @ [newline]" and "log_line 1 1000 = ''1 1000'' @ [newline]"
    by (simp_all add: log_line_def sdec_def)
  ultimately show ?thesis
    by (simp add: tr2)
qed

subsection \<open>The length check is the only test\<close>

text \<open>
  C10: the length check is the server's only test of a datagram. A pass over a datagram
  changes the trace exactly when the datagram is at least as long as the header, and then it
  appends the record of the datagram's first \<open>hdr_size\<close> bytes: the bytes after the header,
  however few or many (none, fewer or more than 100, more than the buffer holds), change
  nothing.
\<close>

theorem length_is_only_criterion:
  assumes "abi_ok a" and "length (s_buffer st) = buffer_size" and "s_recv tk = Datagram d"
  shows "(s_trace (server_body a tk st) \<noteq> s_trace st \<longleftrightarrow> hdr_size a \<le> length d)
         \<and> (hdr_size a \<le> length d \<longrightarrow>
              s_trace (server_body a tk st) =
                s_trace st @ [LogWrite (record_of a (take (hdr_size a) d) (s_now tk))])"
proof -
  have "s_trace (server_body a tk st) = s_trace st @ datagram_log a tk"
    using assms by (rule server_body_datagram)
  moreover have "datagram_log a tk =
      (if hdr_size a \<le> length d then [LogWrite (record_of a (take (hdr_size a) d) (s_now tk))]
       else [])"
    using assms(1,3) by (simp add: datagram_log_def record_of_header)
  ultimately show ?thesis by simp
qed

theorem length_is_only_criterion_witness:
  "s_trace (server_body packed_le bare_tick demo_state) = [LogWrite (''7 250'' @ [newline])]"
proof -
  have d: "s_recv bare_tick = Datagram bare_header" and now: "s_now bare_tick = 5250"
    by (simp_all add: bare_tick_def)
  have mem: "time_off packed_le + 8 \<le> length demo_block" "4 \<le> time_off packed_le"
    by (simp_all add: demo_block_def packed_le_def)
  have len: "length bare_header = 12"
    by (simp add: bare_header_def demo_block_def)
  have "load 0 4 bare_header = load 0 4 (stamp packed_le 7 5000 demo_block)"
    and "load 4 8 bare_header = load 4 8 (stamp packed_le 7 5000 demo_block)"
    by (simp_all add: bare_header_def load_prefix)
  then have "get_seq packed_le bare_header = 7"
    and "get_send_time_us packed_le bare_header = 5000"
    using mem get_seq_stamp [of packed_le demo_block 7 5000]
      get_time_stamp [of packed_le demo_block 7 5000]
    by (simp_all add: get_seq_def get_send_time_us_def packed_le_def)
  then have rec: "record_of packed_le bare_header 5250 = log_line 7 250"
    by (simp add: record_of_def clamp_lat_def)
  have "dec 250 = ''250''" and "dec 7 = ''7''"
    by (simp_all add: dec.simps [of 250] dec.simps [of 25] dec_digit digit_def)
  then have line: "log_line 7 250 = ''7 250'' @ [newline]"
    by (simp add: log_line_def sdec_def)
  have whole: "take (hdr_size packed_le) bare_header = bare_header"
    using len by (simp add: packed_le_def)
  have fits: "hdr_size packed_le \<le> length bare_header"
    using len by (simp add: packed_le_def)
  show ?thesis
    using length_is_only_criterion [OF abi_ok_packed_le length_demo_buffer d] fits
    by (simp add: whole now rec line demo_state_def)
qed

end
